theory Spec2Isabelle
  imports Complex_Main
begin

section \<open>The few-shot training notebook\<close>

text \<open>
  The notebook \<^verbatim>\<open>few_shot_classifier.ipynb\<close> is a sequence of cells: set-up of the samplers,
  the model, the optimizer and the scheduler, then one cell with the training loop that keeps
  the best metrics and a best state, and reloads that state into the model after the loop.

  Tensors are modelled by an explicit storage: a named tensor of the module is an address,
  and the storage maps addresses to tensor values. The type of tensor values is left open.
  Python floats (metrics, losses, the learning rate) are modelled as reals: rounding and NaN
  are not part of the model.
\<close>

subsection \<open>Tensors, modules and state dictionaries\<close>

type_synonym addr = nat
type_synonym 'v storage = "addr \<Rightarrow> 'v"

text \<open>The named tensors of a module (parameters and buffers), in registration order.\<close>
type_synonym tensors = "(string \<times> addr) list"

definition read_tensors :: "'v storage \<Rightarrow> tensors \<Rightarrow> 'v list" where
  "read_tensors st m = map (\<lambda>p. st (snd p)) m"

text \<open>An in-place update of the tensors of \<open>m\<close>, one value for each, in order.\<close>
primrec write_tensors :: "tensors \<Rightarrow> 'v list \<Rightarrow> 'v storage \<Rightarrow> 'v storage" where
  "write_tensors [] vs st = st"
| "write_tensors (p # ps) vs st =
     (case vs of [] \<Rightarrow> st | v # vs' \<Rightarrow> write_tensors ps vs' (st(snd p := v)))"

text \<open>
  \<^verbatim>\<open>model.state_dict()\<close> builds a new ordered dictionary on every call (\<open>dict_id\<close> is the
  identity of that object, the number of the allocation). Its values are the module's tensors
  detached from the autograd graph: they share the storage of the live tensors, nothing is
  copied.
\<close>
record ordered_dict =
  dict_id :: nat
  entries :: tensors

definition state_dict :: "tensors \<Rightarrow> nat \<Rightarrow> ordered_dict" where
  "state_dict m fresh = \<lparr>dict_id = fresh, entries = m\<rparr>"

datatype error =
    FrameworkError string
  | StateDictKeys "string list" "string list"

text \<open>
  \<^verbatim>\<open>param.copy_(input_param)\<close> for every tensor of the module whose key is in the given
  dictionary, in the module's order.
\<close>
primrec copy_tensors :: "tensors \<Rightarrow> (string \<rightharpoonup> addr) \<Rightarrow> 'v storage \<Rightarrow> 'v storage" where
  "copy_tensors [] sd st = st"
| "copy_tensors (p # ps) sd st =
     copy_tensors ps sd (case sd (fst p) of None \<Rightarrow> st | Some src \<Rightarrow> st(snd p := st src))"

text \<open>
  \<^verbatim>\<open>model.load_state_dict(d)\<close> with the default \<^verbatim>\<open>strict=True\<close>: the tensors are copied, then a
  missing or an unexpected key raises; otherwise the two (empty) key lists are returned.
  The error lists the unexpected keys in the order of the dictionary; the order in which the
  framework lists them (module by module) is not modelled.
\<close>
definition load_state_dict ::
  "tensors \<Rightarrow> tensors \<Rightarrow> 'v storage \<Rightarrow> (error \<times> 'v storage) + ('v storage \<times> string list \<times> string list)" where
  "load_state_dict m d st =
     (let st' = copy_tensors m (map_of d) st;
          missing_keys = filter (\<lambda>k. map_of d k = None) (map fst m);
          unexpected_keys = filter (\<lambda>k. k \<notin> set (map fst m)) (map fst d)
      in if missing_keys \<noteq> [] \<or> unexpected_keys \<noteq> []
         then Inl (StateDictKeys missing_keys unexpected_keys, st')
         else Inr (st', missing_keys, unexpected_keys))"

subsection \<open>Configuration cells\<close>

definition N_TASKS_PER_EPOCH :: nat where "N_TASKS_PER_EPOCH = 10"
definition N_VALIDATION_TASKS :: nat where "N_VALIDATION_TASKS = 100"
definition scheduler_milestones :: "nat list" where "scheduler_milestones = [70, 85]"
definition scheduler_gamma :: real where "scheduler_gamma = 1 / 10"
definition LEARNING_RATE :: real where "LEARNING_RATE = 1 / 1000"
definition N_EPOCHS :: nat where "N_EPOCHS = 100"

subsection \<open>The state of the notebook\<close>

text \<open>What the run writes: lines on the console, scalars of the tensorboard writer.\<close>
datatype line =
    Epoch_line nat
  | Ding_line
  | Best_f1_line nat real
  | Best_recall_line nat real

text \<open>The calls into the framework, in the order the run makes them.\<close>
datatype call = Fit_episode | Predict_episode | Scheduler_step | Load_state_dict

text \<open>
  The components of the tuple of \<^verbatim>\<open>evaluate_model\<close> that the notebook binds to a name; the
  other three are bound to \<^verbatim>\<open>_\<close>.
\<close>
record eval_result =
  actuals :: "nat list"
  predictions :: "nat list"
  recall :: real
  f1_score :: real

text \<open>
  The collaborators that are not part of the notebook: the module's tensors, one training
  step on one sampled episode (forward pass, loss, backward pass, optimizer step; it returns
  the new values of the module's tensors and the loss), the prediction on one sampled
  validation episode (labels and predictions), and the two metrics. \<open>'w\<close> is the state of
  the framework the notebook never sees: random generators, loaders, momentum buffers.
  A step that raises hands back what it had done to that state and to the tensors.
\<close>
record ('w, 'v) collaborators =
  model :: tensors
  fit_episode :: "'w \<Rightarrow> real \<Rightarrow> 'v list \<Rightarrow> (error \<times> 'w \<times> 'v list) + ('w \<times> 'v list \<times> real)"
  predict_episode :: "'w \<Rightarrow> 'v list \<Rightarrow> (error \<times> 'w) + ('w \<times> nat list \<times> nat list)"
  recall_metric :: "nat list \<Rightarrow> nat list \<Rightarrow> real"
  f1_metric :: "nat list \<Rightarrow> nat list \<Rightarrow> real"

record ('w, 'v) notebook =
  hidden :: 'w
  storage :: "'v storage"
  next_id :: nat
  lr :: real
  last_epoch :: nat
  best_state :: ordered_dict
  best_f1_score :: real
  best_recall :: real
  stdout :: "line list"
  tb_writer :: "(string \<times> real \<times> nat) list"
  calls :: "call list"

type_synonym ('w, 'v) outcome = "(error \<times> ('w, 'v) notebook) + ('w, 'v) notebook"

subsection \<open>The two passes of an epoch\<close>

text \<open>
  Modelled from the spec: \<^verbatim>\<open>training_epoch\<close> of the module \<^verbatim>\<open>FSLMethods\<close> is not among the
  sources. One training pass runs over the episodes of the training loader
  (\<open>N_TASKS_PER_EPOCH\<close> of them): forward pass, cross-entropy loss, backward pass, optimizer
  step for each, and produces the mean loss. The optimizer step mutates the parameter state
  in place, at the learning rate the optimizer holds.
\<close>
primrec train_tasks ::
  "('w, 'v) collaborators \<Rightarrow> nat \<Rightarrow> ('w, 'v) notebook \<Rightarrow>
   (error \<times> ('w, 'v) notebook) + (('w, 'v) notebook \<times> real list)" where
  "train_tasks env 0 s = Inr (s, [])"
| "train_tasks env (Suc n) s =
     (case train_tasks env n s of
        Inl x \<Rightarrow> Inl x
      | Inr (s1, losses) \<Rightarrow>
          (case fit_episode env (hidden s1) (lr s1) (read_tensors (storage s1) (model env)) of
             Inl (e, w, vs) \<Rightarrow>
               Inl (e, s1\<lparr>hidden := w, storage := write_tensors (model env) vs (storage s1),
                          calls := calls s1 @ [Fit_episode]\<rparr>)
           | Inr (w, vs, loss) \<Rightarrow>
               Inr (s1\<lparr>hidden := w, storage := write_tensors (model env) vs (storage s1),
                       calls := calls s1 @ [Fit_episode]\<rparr>, losses @ [loss])))"

text \<open>
  Modelled from the spec: the result of \<^verbatim>\<open>training_epoch\<close> (module \<^verbatim>\<open>FSLMethods\<close>, not among
  the sources) is the mean of the losses of the episodes of the pass. The loader yields
  \<open>N_TASKS_PER_EPOCH = 10\<close> episodes, so the mean is never taken of an empty list.
\<close>
definition training_epoch ::
  "('w, 'v) collaborators \<Rightarrow> ('w, 'v) notebook \<Rightarrow>
   (error \<times> ('w, 'v) notebook) + (('w, 'v) notebook \<times> real)" where
  "training_epoch env s =
     (case train_tasks env N_TASKS_PER_EPOCH s of
        Inl x \<Rightarrow> Inl x
      | Inr (s1, losses) \<Rightarrow> Inr (s1, sum_list losses / real (length losses)))"

text \<open>
  Modelled from the spec: \<^verbatim>\<open>evaluate_model\<close> of the module \<^verbatim>\<open>FSLMethods\<close> is not among the
  sources. One validation pass runs over the episodes of the validation loader
  (\<open>N_VALIDATION_TASKS\<close> of them) and produces the predictions, and recall and F1 derived
  from them. It reads the tensors and does not write them.
\<close>
primrec validate_tasks ::
  "('w, 'v) collaborators \<Rightarrow> nat \<Rightarrow> ('w, 'v) notebook \<Rightarrow>
   (error \<times> ('w, 'v) notebook) + (('w, 'v) notebook \<times> nat list \<times> nat list)" where
  "validate_tasks env 0 s = Inr (s, [], [])"
| "validate_tasks env (Suc n) s =
     (case validate_tasks env n s of
        Inl x \<Rightarrow> Inl x
      | Inr (s1, ys, ps) \<Rightarrow>
          (case predict_episode env (hidden s1) (read_tensors (storage s1) (model env)) of
             Inl (e, w) \<Rightarrow> Inl (e, s1\<lparr>hidden := w, calls := calls s1 @ [Predict_episode]\<rparr>)
           | Inr (w, y, p) \<Rightarrow>
               Inr (s1\<lparr>hidden := w, calls := calls s1 @ [Predict_episode]\<rparr>, ys @ y, ps @ p)))"

text \<open>
  Modelled from the spec: the result of \<^verbatim>\<open>evaluate_model\<close> (module \<^verbatim>\<open>FSLMethods\<close>, not among
  the sources) holds the labels and the predictions of all episodes of the pass, and the
  recall and the F1 score derived from them.
\<close>
definition evaluate_model ::
  "('w, 'v) collaborators \<Rightarrow> ('w, 'v) notebook \<Rightarrow>
   (error \<times> ('w, 'v) notebook) + (('w, 'v) notebook \<times> eval_result)" where
  "evaluate_model env s =
     (case validate_tasks env N_VALIDATION_TASKS s of
        Inl x \<Rightarrow> Inl x
      | Inr (s1, ys, ps) \<Rightarrow>
          Inr (s1, \<lparr>actuals = ys, predictions = ps,
                    recall = recall_metric env ys ps, f1_score = f1_metric env ys ps\<rparr>))"

subsection \<open>The scheduler\<close>

text \<open>
  \<^verbatim>\<open>MultiStepLR.step()\<close>: the scheduler's epoch counter goes up by one; when the new count is
  a milestone, the learning rate of the optimizer is multiplied by gamma, once for each
  occurrence of the count among the milestones.
\<close>
definition scheduler_step :: "('w, 'v) notebook \<Rightarrow> ('w, 'v) notebook" where
  "scheduler_step s =
     (let e = Suc (last_epoch s)
      in s\<lparr>last_epoch := e,
            lr := (if e \<in> set scheduler_milestones
                   then lr s * scheduler_gamma ^ count_list scheduler_milestones e
                   else lr s),
            calls := calls s @ [Scheduler_step]\<rparr>)"

subsection \<open>The training cell\<close>

text \<open>The two comparisons of the loop body, on the metrics of this epoch.\<close>
definition track_f1 :: "real \<Rightarrow> ('w, 'v) notebook \<Rightarrow> ('w, 'v) notebook" where
  "track_f1 f1 s = (if f1 > best_f1_score s then s\<lparr>best_f1_score := f1\<rparr> else s)"

definition track_recall ::
  "('w, 'v) collaborators \<Rightarrow> real \<Rightarrow> ('w, 'v) notebook \<Rightarrow> ('w, 'v) notebook" where
  "track_recall env r s =
     (if r > best_recall s
      then s\<lparr>best_recall := r,
             best_state := state_dict (model env) (next_id s),
             next_id := Suc (next_id s),
             stdout := stdout s @ [Ding_line]\<rparr>
      else s)"

definition epoch_body ::
  "('w, 'v) collaborators \<Rightarrow> nat \<Rightarrow> ('w, 'v) notebook \<Rightarrow> ('w, 'v) outcome" where
  "epoch_body env epoch s =
     (case training_epoch env (s\<lparr>stdout := stdout s @ [Epoch_line epoch]\<rparr>) of
        Inl x \<Rightarrow> Inl x
      | Inr (s1, average_epoch_loss) \<Rightarrow>
          (case evaluate_model env s1 of
             Inl x \<Rightarrow> Inl x
           | Inr (s2, res) \<Rightarrow>
               (let s3 = track_f1 (f1_score res) s2;
                    s4 = track_recall env (recall res) s3;
                    s5 = s4\<lparr>tb_writer := tb_writer s4 @
                            [(''Train/loss'', average_epoch_loss, epoch),
                             (''F1'', f1_score res, epoch),
                             (''Recall'', recall res, epoch)]\<rparr>
                in Inr (scheduler_step s5))))"

text \<open>
  \<^verbatim>\<open>for epoch in range(n)\<close>: the state after the first \<open>n\<close> iterations. An exception in an
  iteration ends the loop.
\<close>
primrec run_epochs ::
  "('w, 'v) collaborators \<Rightarrow> nat \<Rightarrow> ('w, 'v) notebook \<Rightarrow> ('w, 'v) outcome" where
  "run_epochs env 0 s = Inr s"
| "run_epochs env (Suc n) s =
     (case run_epochs env n s of Inl x \<Rightarrow> Inl x | Inr s1 \<Rightarrow> epoch_body env n s1)"

text \<open>
  The state when the training cell starts: the optimizer and the scheduler as the set-up
  cells made them, then \<^verbatim>\<open>best_state = model.state_dict()\<close> and the two best metrics at 0.0.
\<close>
definition initial :: "('w, 'v) collaborators \<Rightarrow> 'w \<Rightarrow> 'v storage \<Rightarrow> ('w, 'v) notebook" where
  "initial env w st =
     \<lparr>hidden = w, storage = st, next_id = 1, lr = LEARNING_RATE, last_epoch = 0,
      best_state = state_dict (model env) 0, best_f1_score = 0, best_recall = 0,
      stdout = [], tb_writer = [], calls = []\<rparr>"

text \<open>The statements after the loop: reload the best state, print the two best metrics.\<close>
definition retrieve_best ::
  "('w, 'v) collaborators \<Rightarrow> ('w, 'v) notebook \<Rightarrow> ('w, 'v) outcome" where
  "retrieve_best env s =
     (case load_state_dict (model env) (entries (best_state s)) (storage s) of
        Inl (e, st) \<Rightarrow> Inl (e, s\<lparr>storage := st, calls := calls s @ [Load_state_dict]\<rparr>)
      | Inr (st, missing_keys, unexpected_keys) \<Rightarrow>
          Inr (s\<lparr>storage := st, calls := calls s @ [Load_state_dict],
                 stdout := stdout s @ [Best_f1_line N_EPOCHS (best_f1_score s),
                                       Best_recall_line N_EPOCHS (best_recall s)]\<rparr>))"

definition train_cell ::
  "('w, 'v) collaborators \<Rightarrow> 'w \<Rightarrow> 'v storage \<Rightarrow> ('w, 'v) outcome" where
  "train_cell env w st =
     (case run_epochs env N_EPOCHS (initial env w st) of
        Inl x \<Rightarrow> Inl x
      | Inr s \<Rightarrow> retrieve_best env s)"

subsection \<open>The whole notebook, with every framework call able to raise\<close>

text \<open>
  The training cell above has the two passes as its only calls that can raise. Here every
  call of the notebook into the framework can: the calls of the set-up cells, every
  \<^verbatim>\<open>model.state_dict()\<close>, every \<^verbatim>\<open>tb_writer.add_scalar\<close>, every \<^verbatim>\<open>train_scheduler.step()\<close> and
  the final \<^verbatim>\<open>model.load_state_dict\<close>. Whether such a call raises is up to the framework: a
  set-up call maps the state of the framework to a new one or raises, and \<open>call_raises\<close>
  says for the state of the framework and the call at hand whether it raises, and what.
\<close>
datatype site =
    State_dict_site nat
  | Add_scalar_site string nat
  | Scheduler_site nat
  | Load_site

record 'w framework =
  setup_call :: "string \<Rightarrow> 'w \<Rightarrow> (error \<times> 'w) + 'w"
  call_raises :: "'w \<Rightarrow> site \<Rightarrow> error option"

text \<open>
  The calls of the cells before the training cell, in the order of the source: the imports
  and the warning filter, the data, the three seeds, the samplers and loaders, then the loss,
  the backbone, the model, the optimizer, the scheduler and the writer.
\<close>
definition setup_calls :: "string list" where
  "setup_calls =
     [''import'', ''warnings.filterwarnings'',
      ''get_processed_data'', ''form_datasets'',
      ''np.random.seed'', ''torch.manual_seed'', ''random.seed'',
      ''TaskSampler(train_set)'', ''TaskSampler(validation_set)'',
      ''DataLoader(train_set)'', ''DataLoader(validation_set)'',
      ''nn.CrossEntropyLoss'', ''FeatureExtractor'', ''PrototypicalNetworks'',
      ''model.parameters'', ''optim.SGD'', ''MultiStepLR'', ''SummaryWriter'']"

text \<open>The cells run their calls one after the other; the first that raises ends them.\<close>
primrec run_setup :: "'w framework \<Rightarrow> string list \<Rightarrow> 'w \<Rightarrow> (error \<times> 'w) + 'w" where
  "run_setup fw [] w = Inr w"
| "run_setup fw (c # cs) w =
     (case setup_call fw c w of Inl x \<Rightarrow> Inl x | Inr w1 \<Rightarrow> run_setup fw cs w1)"

text \<open>
  The recall branch of the loop body: \<^verbatim>\<open>best_recall = recall\<close> is done when
  \<^verbatim>\<open>model.state_dict()\<close> is called, the assignment of the best state and the print are not.
\<close>
definition track_recall_fw ::
  "('w, 'v) collaborators \<Rightarrow> 'w framework \<Rightarrow> real \<Rightarrow> ('w, 'v) notebook \<Rightarrow> ('w, 'v) outcome" where
  "track_recall_fw env fw r s =
     (if r > best_recall s
      then (case call_raises fw (hidden s) (State_dict_site (next_id s)) of
              Some e \<Rightarrow> Inl (e, s\<lparr>best_recall := r\<rparr>)
            | None \<Rightarrow> Inr (track_recall env r s))
      else Inr s)"

text \<open>\<^verbatim>\<open>tb_writer.add_scalar(tag, value, epoch)\<close>.\<close>
definition add_scalar_fw ::
  "'w framework \<Rightarrow> string \<Rightarrow> real \<Rightarrow> nat \<Rightarrow> ('w, 'v) notebook \<Rightarrow> ('w, 'v) outcome" where
  "add_scalar_fw fw tag v step s =
     (case call_raises fw (hidden s) (Add_scalar_site tag step) of
        Some e \<Rightarrow> Inl (e, s)
      | None \<Rightarrow> Inr (s\<lparr>tb_writer := tb_writer s @ [(tag, v, step)]\<rparr>))"

text \<open>\<^verbatim>\<open>train_scheduler.step()\<close>.\<close>
definition scheduler_step_fw :: "'w framework \<Rightarrow> ('w, 'v) notebook \<Rightarrow> ('w, 'v) outcome" where
  "scheduler_step_fw fw s =
     (case call_raises fw (hidden s) (Scheduler_site (last_epoch s)) of
        Some e \<Rightarrow> Inl (e, s\<lparr>calls := calls s @ [Scheduler_step]\<rparr>)
      | None \<Rightarrow> Inr (scheduler_step s))"

text \<open>The loop body, statement by statement; nothing in it handles an exception.\<close>
definition epoch_body_fw ::
  "('w, 'v) collaborators \<Rightarrow> 'w framework \<Rightarrow> nat \<Rightarrow> ('w, 'v) notebook \<Rightarrow> ('w, 'v) outcome" where
  "epoch_body_fw env fw epoch s =
     (case training_epoch env (s\<lparr>stdout := stdout s @ [Epoch_line epoch]\<rparr>) of
        Inl x \<Rightarrow> Inl x
      | Inr (s1, average_epoch_loss) \<Rightarrow>
     (case evaluate_model env s1 of
        Inl x \<Rightarrow> Inl x
      | Inr (s2, res) \<Rightarrow>
     (case track_recall_fw env fw (recall res) (track_f1 (f1_score res) s2) of
        Inl x \<Rightarrow> Inl x
      | Inr s4 \<Rightarrow>
     (case add_scalar_fw fw ''Train/loss'' average_epoch_loss epoch s4 of
        Inl x \<Rightarrow> Inl x
      | Inr s5 \<Rightarrow>
     (case add_scalar_fw fw ''F1'' (f1_score res) epoch s5 of
        Inl x \<Rightarrow> Inl x
      | Inr s6 \<Rightarrow>
     (case add_scalar_fw fw ''Recall'' (recall res) epoch s6 of
        Inl x \<Rightarrow> Inl x
      | Inr s7 \<Rightarrow> scheduler_step_fw fw s7))))))"

text \<open>\<^verbatim>\<open>for epoch in range(n)\<close> with this body.\<close>
primrec run_epochs_fw ::
  "('w, 'v) collaborators \<Rightarrow> 'w framework \<Rightarrow> nat \<Rightarrow> ('w, 'v) notebook \<Rightarrow> ('w, 'v) outcome" where
  "run_epochs_fw env fw 0 s = Inr s"
| "run_epochs_fw env fw (Suc n) s =
     (case run_epochs_fw env fw n s of Inl x \<Rightarrow> Inl x | Inr s1 \<Rightarrow> epoch_body_fw env fw n s1)"

text \<open>The reload after the loop, then the two prints.\<close>
definition retrieve_best_fw ::
  "('w, 'v) collaborators \<Rightarrow> 'w framework \<Rightarrow> ('w, 'v) notebook \<Rightarrow> ('w, 'v) outcome" where
  "retrieve_best_fw env fw s =
     (case call_raises fw (hidden s) Load_site of
        Some e \<Rightarrow> Inl (e, s\<lparr>calls := calls s @ [Load_state_dict]\<rparr>)
      | None \<Rightarrow> retrieve_best env s)"

text \<open>
  How a run of the notebook ends: with an exception before the tracking variables of the
  training cell exist (then the state of the framework at the raise is all there is), with
  an exception in the training cell and the state at the raise, or normally.
\<close>
datatype ('w, 'v) ended =
    Raised_early error 'w
  | Raised error "('w, 'v) notebook"
  | Finished "('w, 'v) notebook"

text \<open>
  The notebook from its first cell: the set-up cells, the first \<^verbatim>\<open>model.state_dict()\<close>, the
  loop, the reload. \<open>st\<close> holds the values the constructors give the tensors.
\<close>
definition notebook_run ::
  "('w, 'v) collaborators \<Rightarrow> 'w framework \<Rightarrow> 'w \<Rightarrow> 'v storage \<Rightarrow> ('w, 'v) ended" where
  "notebook_run env fw w0 st =
     (case run_setup fw setup_calls w0 of
        Inl (e, w) \<Rightarrow> Raised_early e w
      | Inr w \<Rightarrow>
     (case call_raises fw w (State_dict_site 0) of
        Some e \<Rightarrow> Raised_early e w
      | None \<Rightarrow>
     (case run_epochs_fw env fw N_EPOCHS (initial env w st) of
        Inl (e, s) \<Rightarrow> Raised e s
      | Inr s \<Rightarrow>
     (case retrieve_best_fw env fw s of
        Inl (e, s1) \<Rightarrow> Raised e s1
      | Inr s1 \<Rightarrow> Finished s1))))"

text \<open>The calls of one epoch that raises nothing: the training pass, the validation pass, the scheduler.\<close>
definition epoch_calls :: "call list" where
  "epoch_calls = replicate N_TASKS_PER_EPOCH Fit_episode @
                 replicate N_VALIDATION_TASKS Predict_episode @ [Scheduler_step]"

text \<open>The values the writer holds under a tag, and the epoch numbers on the console.\<close>
definition scalars :: "string \<Rightarrow> (string \<times> real \<times> nat) list \<Rightarrow> real list" where
  "scalars tag tb = map (\<lambda>x. fst (snd x)) (filter (\<lambda>x. fst x = tag) tb)"

fun epoch_lines :: "line list \<Rightarrow> nat list" where
  "epoch_lines [] = []"
| "epoch_lines (Epoch_line e # ls) = e # epoch_lines ls"
| "epoch_lines (l # ls) = epoch_lines ls"

text \<open>The tags and the step of the three scalars of an epoch, in the order they are written.\<close>
definition epoch_tags :: "nat \<Rightarrow> (string \<times> nat) list" where
  "epoch_tags e = [(''Train/loss'', e), (''F1'', e), (''Recall'', e)]"

subsection \<open>A small instance\<close>

text \<open>
  A module with one tensor, for running the cell on concrete data. Every training step adds
  one to the weight and reports the loss 1; with \<open>Some b\<close> as second argument the step
  raises when it finds the weight at \<open>b\<close>. A validation episode holds one positive example,
  and the model finds it when the weight is \<open>c\<close>. Recall and F1 are computed for the
  positive class 1.
\<close>
definition demo_recall :: "nat list \<Rightarrow> nat list \<Rightarrow> real" where
  "demo_recall ys ps =
     real (length (filter (\<lambda>yp. yp = (1, 1)) (zip ys ps))) / real (length (filter (\<lambda>y. y = 1) ys))"

definition demo_f1 :: "nat list \<Rightarrow> nat list \<Rightarrow> real" where
  "demo_f1 ys ps =
     2 * real (length (filter (\<lambda>yp. yp = (1, 1)) (zip ys ps))) /
     (real (length (filter (\<lambda>y. y = 1) ys)) + real (length (filter (\<lambda>p. p = 1) ps)))"

definition demo :: "int \<Rightarrow> int option \<Rightarrow> (unit, int) collaborators" where
  "demo c bad =
     \<lparr>model = [(''backbone.weight'', 0)],
      fit_episode = (\<lambda>w rate vs.
         if (case bad of None \<Rightarrow> False | Some b \<Rightarrow> vs = [b])
         then Inl (FrameworkError ''loss is nan'', w, vs)
         else Inr (w, map (\<lambda>v. v + 1) vs, 1)),
      predict_episode = (\<lambda>w vs. Inr (w, [1], [if vs = [c] then 1 else 0])),
      recall_metric = demo_recall,
      f1_metric = demo_f1\<rparr>"

text \<open>
  Frameworks for the small instance: with \<open>Some c\<close> as first argument the set-up call \<open>c\<close>
  raises, with \<open>Some x\<close> as second argument the call \<open>x\<close> raises; no other call does. And an
  instance whose validation sampler cannot draw an episode.
\<close>
definition demo_framework :: "string option \<Rightarrow> site option \<Rightarrow> unit framework" where
  "demo_framework bad_setup bad_site =
     \<lparr>setup_call = (\<lambda>c w.
         if Some c = bad_setup then Inl (FrameworkError ''FileNotFoundError'', w) else Inr w),
      call_raises = (\<lambda>w c.
         if Some c = bad_site then Some (FrameworkError ''OSError: No space left on device'')
         else None)\<rparr>"

definition demo_unsampled :: "(unit, int) collaborators" where
  "demo_unsampled =
     (demo 10 None)\<lparr>predict_episode :=
        (\<lambda>w vs. Inl (FrameworkError ''ValueError: Sample larger than population or is negative'', w))\<rparr>"

section \<open>Properties of the training cell\<close>

subsection \<open>What one pass and one epoch change\<close>


lemma train_tasks_Inr:
  "train_tasks env n s = Inr (s', ls) \<Longrightarrow>
     next_id s' = next_id s \<and> lr s' = lr s \<and> last_epoch s' = last_epoch s \<and>
     best_state s' = best_state s \<and> best_f1_score s' = best_f1_score s \<and>
     best_recall s' = best_recall s \<and> stdout s' = stdout s \<and> tb_writer s' = tb_writer s \<and>
     calls s' = calls s @ replicate n Fit_episode \<and> length ls = n"
proof (induction n arbitrary: s' ls)
  case 0
  then show ?case by simp
next
  case (Suc n)
  from Suc.prems obtain s1 l1 where a: "train_tasks env n s = Inr (s1, l1)"
    by (auto split: sum.splits)
  note b = Suc.IH[OF a]
  from Suc.prems a obtain w vs loss where
    d: "s' = s1\<lparr>hidden := w, storage := write_tensors (model env) vs (storage s1),
                       calls := calls s1 @ [Fit_episode]\<rparr>" and e: "ls = l1 @ [loss]"
    by (auto split: sum.splits prod.splits)
  show ?case using b by (simp add: d e replicate_append_same)
qed

lemma train_tasks_Inl:
  "train_tasks env n s = Inl (e, s') \<Longrightarrow>
     next_id s' = next_id s \<and> lr s' = lr s \<and> last_epoch s' = last_epoch s \<and>
     best_state s' = best_state s \<and> best_f1_score s' = best_f1_score s \<and>
     best_recall s' = best_recall s \<and> stdout s' = stdout s \<and> tb_writer s' = tb_writer s \<and>
     (\<exists>j. 0 < j \<and> j \<le> n \<and> calls s' = calls s @ replicate j Fit_episode)"
proof (induction n arbitrary: s')
  case 0
  then show ?case by simp
next
  case (Suc n)
  show ?case
  proof (cases "train_tasks env n s")
    case (Inl x)
    with Suc.prems have "train_tasks env n s = Inl (e, s')" by simp
    from Suc.IH[OF this] show ?thesis by (auto intro: le_SucI)
  next
    case (Inr y)
    obtain s1 l1 where y: "y = (s1, l1)" by (cases y)
    note b = train_tasks_Inr[OF Inr[unfolded y]]
    from Suc.prems Inr y obtain w vs where
      d: "s' = s1\<lparr>hidden := w, storage := write_tensors (model env) vs (storage s1),
                       calls := calls s1 @ [Fit_episode]\<rparr>"
      by (auto split: sum.splits prod.splits)
    have "calls s' = calls s @ replicate (Suc n) Fit_episode"
      using b by (simp add: d replicate_append_same)
    then show ?thesis using b d by auto
  qed
qed

lemma validate_tasks_Inr:
  "validate_tasks env n s = Inr (s', ys, ps) \<Longrightarrow>
     storage s' = storage s \<and>
     next_id s' = next_id s \<and> lr s' = lr s \<and> last_epoch s' = last_epoch s \<and>
     best_state s' = best_state s \<and> best_f1_score s' = best_f1_score s \<and>
     best_recall s' = best_recall s \<and> stdout s' = stdout s \<and> tb_writer s' = tb_writer s \<and>
     calls s' = calls s @ replicate n Predict_episode"
proof (induction n arbitrary: s' ys ps)
  case 0
  then show ?case by simp
next
  case (Suc n)
  from Suc.prems obtain s1 y1 p1 where a: "validate_tasks env n s = Inr (s1, y1, p1)"
    by (auto split: sum.splits)
  note b = Suc.IH[OF a]
  from Suc.prems a obtain w where
    d: "s' = s1\<lparr>hidden := w, calls := calls s1 @ [Predict_episode]\<rparr>"
    by (auto split: sum.splits prod.splits)
  show ?case using b by (simp add: d replicate_append_same)
qed

lemma validate_tasks_Inl:
  "validate_tasks env n s = Inl (e, s') \<Longrightarrow>
     storage s' = storage s \<and>
     next_id s' = next_id s \<and> lr s' = lr s \<and> last_epoch s' = last_epoch s \<and>
     best_state s' = best_state s \<and> best_f1_score s' = best_f1_score s \<and>
     best_recall s' = best_recall s \<and> stdout s' = stdout s \<and> tb_writer s' = tb_writer s \<and>
     (\<exists>j. 0 < j \<and> j \<le> n \<and> calls s' = calls s @ replicate j Predict_episode)"
proof (induction n arbitrary: s')
  case 0
  then show ?case by simp
next
  case (Suc n)
  show ?case
  proof (cases "validate_tasks env n s")
    case (Inl x)
    with Suc.prems have "validate_tasks env n s = Inl (e, s')" by simp
    from Suc.IH[OF this] show ?thesis by (auto intro: le_SucI)
  next
    case (Inr y)
    obtain s1 y1 p1 where y: "y = (s1, y1, p1)" by (cases y)
    note b = validate_tasks_Inr[OF Inr[unfolded y]]
    from Suc.prems Inr y obtain w where
      d: "s' = s1\<lparr>hidden := w, calls := calls s1 @ [Predict_episode]\<rparr>"
      by (auto split: sum.splits prod.splits)
    have "calls s' = calls s @ replicate (Suc n) Predict_episode"
      using b by (simp add: d replicate_append_same)
    then show ?thesis using b d by auto
  qed
qed


lemma training_epoch_Inr:
  assumes "training_epoch env s = Inr (s', l)"
  shows "\<exists>losses. length losses = N_TASKS_PER_EPOCH \<and> l = sum_list losses / real N_TASKS_PER_EPOCH \<and>
     train_tasks env N_TASKS_PER_EPOCH s = Inr (s', losses)"
  using assms train_tasks_Inr[of env N_TASKS_PER_EPOCH s]
  by (auto simp: training_epoch_def split: sum.splits)

lemma evaluate_model_Inr:
  assumes "evaluate_model env s = Inr (s', res)"
  shows "\<exists>ys ps. validate_tasks env N_VALIDATION_TASKS s = Inr (s', ys, ps) \<and>
     recall res = recall_metric env ys ps \<and> f1_score res = f1_metric env ys ps"
  using assms by (auto simp: evaluate_model_def split: sum.splits)

lemma epoch_body_Inr:
  assumes "epoch_body env e s = Inr s'"
  shows "\<exists>losses ys ps f r. length losses = N_TASKS_PER_EPOCH \<and>
      f = f1_metric env ys ps \<and> r = recall_metric env ys ps \<and>
      tb_writer s' = tb_writer s @
         [(''Train/loss'', sum_list losses / real N_TASKS_PER_EPOCH, e), (''F1'', f, e), (''Recall'', r, e)] \<and>
      best_f1_score s' = max (best_f1_score s) f \<and>
      best_recall s' = max (best_recall s) r \<and>
      best_state s' = (if r > best_recall s then state_dict (model env) (next_id s) else best_state s) \<and>
      next_id s' = (if r > best_recall s then Suc (next_id s) else next_id s) \<and>
      stdout s' = stdout s @ Epoch_line e # (if r > best_recall s then [Ding_line] else []) \<and>
      last_epoch s' = Suc (last_epoch s) \<and>
      lr s' = (if Suc (last_epoch s) \<in> set scheduler_milestones
               then lr s * scheduler_gamma ^ count_list scheduler_milestones (Suc (last_epoch s))
               else lr s) \<and>
      calls s' = calls s @ replicate N_TASKS_PER_EPOCH Fit_episode @
                 replicate N_VALIDATION_TASKS Predict_episode @ [Scheduler_step]"
proof -
  let ?t = "s\<lparr>stdout := stdout s @ [Epoch_line e]\<rparr>"
  from assms obtain s1 l where t: "training_epoch env ?t = Inr (s1, l)"
    by (auto simp: epoch_body_def split: sum.splits)
  from assms t obtain s2 res where v: "evaluate_model env s1 = Inr (s2, res)"
    by (auto simp: epoch_body_def split: sum.splits)
  from training_epoch_Inr[OF t] obtain losses where
    l: "length losses = N_TASKS_PER_EPOCH" "l = sum_list losses / real N_TASKS_PER_EPOCH"
    and tt: "train_tasks env N_TASKS_PER_EPOCH ?t = Inr (s1, losses)" by blast
  from evaluate_model_Inr[OF v] obtain ys ps where
    vt: "validate_tasks env N_VALIDATION_TASKS s1 = Inr (s2, ys, ps)"
    and m: "recall res = recall_metric env ys ps" "f1_score res = f1_metric env ys ps" by blast
  note a = train_tasks_Inr[OF tt]
  note b = validate_tasks_Inr[OF vt]
  have s': "s' = scheduler_step
      ((track_recall env (recall res) (track_f1 (f1_score res) s2))
         \<lparr>tb_writer := tb_writer (track_recall env (recall res) (track_f1 (f1_score res) s2)) @
            [(''Train/loss'', l, e), (''F1'', f1_score res, e), (''Recall'', recall res, e)]\<rparr>)"
    using assms t v by (simp add: epoch_body_def Let_def)
  show ?thesis
    apply (rule exI[of _ losses], rule exI[of _ ys], rule exI[of _ ps])
    apply (rule exI[of _ "f1_score res"], rule exI[of _ "recall res"])
    using a b l m
    by (simp add: s' scheduler_step_def track_recall_def track_f1_def Let_def max_def)
qed


subsection \<open>Invariants of the loop\<close>


lemma run_epochs_Suc_Inr:
  assumes "run_epochs env (Suc k) s0 = Inr s'"
  obtains s where "run_epochs env k s0 = Inr s" and "epoch_body env k s = Inr s'"
  using assms by (auto split: sum.splits)

lemma run_epochs_invariant:
  assumes "run_epochs env k s0 = Inr s"
    and "P 0 s0"
    and "\<And>n a b. P n a \<Longrightarrow> epoch_body env n a = Inr b \<Longrightarrow> P (Suc n) b"
  shows "P k s"
  using assms(1)
proof (induction k arbitrary: s)
  case 0
  then show ?case using assms(2) by simp
next
  case (Suc k)
  from Suc.prems obtain a where a: "run_epochs env k s0 = Inr a" "epoch_body env k a = Inr s"
    by (rule run_epochs_Suc_Inr)
  from assms(3)[OF Suc.IH[OF a(1)] a(2)] show ?case .
qed

lemma run_epochs_entries:
  assumes "run_epochs env k s0 = Inr s" and "entries (best_state s0) = model env"
  shows "entries (best_state s) = model env"
proof (rule run_epochs_invariant[OF assms(1), where P = "\<lambda>n a. entries (best_state a) = model env"])
  show "entries (best_state s0) = model env" by (rule assms(2))
next
  fix n a b
  assume "entries (best_state a) = model env" and "epoch_body env n a = Inr b"
  then show "entries (best_state b) = model env"
    using epoch_body_Inr[of env n a b] by (auto simp: state_dict_def)
qed

lemma run_epochs_fresh:
  assumes "run_epochs env k s0 = Inr s" and "dict_id (best_state s0) < next_id s0"
  shows "dict_id (best_state s) < next_id s"
proof (rule run_epochs_invariant[OF assms(1), where P = "\<lambda>n a. dict_id (best_state a) < next_id a"])
  show "dict_id (best_state s0) < next_id s0" by (rule assms(2))
next
  fix n a b
  assume "dict_id (best_state a) < next_id a" and "epoch_body env n a = Inr b"
  then show "dict_id (best_state b) < next_id b"
    using epoch_body_Inr[of env n a b] by (auto simp: state_dict_def)
qed

lemma run_epochs_last_epoch:
  assumes "run_epochs env k s0 = Inr s"
  shows "last_epoch s = last_epoch s0 + k"
proof (rule run_epochs_invariant[OF assms(1), where P = "\<lambda>n a. last_epoch a = last_epoch s0 + n"])
  show "last_epoch s0 = last_epoch s0 + 0" by simp
next
  fix n a b
  assume "last_epoch a = last_epoch s0 + n" and "epoch_body env n a = Inr b"
  then show "last_epoch b = last_epoch s0 + Suc n"
    using epoch_body_Inr[of env n a b] by auto
qed

lemma concat_replicate_snoc: "concat (replicate (Suc n) xs) = concat (replicate n xs) @ xs"
  by (induction n) simp_all

lemma run_epochs_calls:
  assumes "run_epochs env k s0 = Inr s"
  shows "calls s = calls s0 @ concat (replicate k epoch_calls)"
proof (rule run_epochs_invariant[OF assms(1), where P = "\<lambda>n a. calls a = calls s0 @ concat (replicate n epoch_calls)"])
  show "calls s0 = calls s0 @ concat (replicate 0 epoch_calls)" by simp
next
  fix n a b
  assume "calls a = calls s0 @ concat (replicate n epoch_calls)" and "epoch_body env n a = Inr b"
  then show "calls b = calls s0 @ concat (replicate (Suc n) epoch_calls)"
    using epoch_body_Inr[of env n a b] unfolding concat_replicate_snoc
    by (auto simp: epoch_calls_def)
qed

lemma scheduler_lr:
  "(if Suc n \<in> set scheduler_milestones
    then x * scheduler_gamma ^ count_list scheduler_milestones (Suc n) else x) =
   (if Suc n = 70 \<or> Suc n = 85 then x * scheduler_gamma else x)"
  by (simp add: scheduler_milestones_def)

lemma run_epochs_lr:
  assumes "run_epochs env k s0 = Inr s" and "last_epoch s0 = 0"
  shows "lr s = lr s0 * (if k < 70 then 1 else if k < 85 then scheduler_gamma else scheduler_gamma ^ 2)"
proof (rule run_epochs_invariant[OF assms(1), where P = "\<lambda>n a. last_epoch a = n \<and> lr a = lr s0 * (if n < 70 then 1 else if n < 85 then scheduler_gamma else scheduler_gamma ^ 2)", THEN conjunct2])
  show "last_epoch s0 = 0 \<and> lr s0 = lr s0 * (if (0::nat) < 70 then 1 else if (0::nat) < 85 then scheduler_gamma else scheduler_gamma ^ 2)"
    using assms(2) by simp
next
  fix n a b
  assume h: "last_epoch a = n \<and> lr a = lr s0 * (if n < 70 then 1 else if n < 85 then scheduler_gamma else scheduler_gamma ^ 2)"
    and "epoch_body env n a = Inr b"
  from epoch_body_Inr[OF this(2)] have
    l: "last_epoch b = Suc (last_epoch a)" and
    r: "lr b = (if Suc (last_epoch a) = 70 \<or> Suc (last_epoch a) = 85 then lr a * scheduler_gamma else lr a)"
    unfolding scheduler_lr by auto
  show "last_epoch b = Suc n \<and> lr b = lr s0 * (if Suc n < 70 then 1 else if Suc n < 85 then scheduler_gamma else scheduler_gamma ^ 2)"
    using h l r by (auto simp: power2_eq_square)
qed

lemma run_epochs_mono:
  assumes "run_epochs env k s0 = Inr s"
  shows "best_recall s0 \<le> best_recall s \<and> best_f1_score s0 \<le> best_f1_score s"
proof (rule run_epochs_invariant[OF assms(1), where P = "\<lambda>n a. best_recall s0 \<le> best_recall a \<and> best_f1_score s0 \<le> best_f1_score a"])
  show "best_recall s0 \<le> best_recall s0 \<and> best_f1_score s0 \<le> best_f1_score s0" by simp
next
  fix n a b
  assume "best_recall s0 \<le> best_recall a \<and> best_f1_score s0 \<le> best_f1_score a" and "epoch_body env n a = Inr b"
  then show "best_recall s0 \<le> best_recall b \<and> best_f1_score s0 \<le> best_f1_score b"
    using epoch_body_Inr[of env n a b] by auto
qed


subsection \<open>Loading a state dictionary\<close>


lemma copy_tensors_same:
  assumes "\<And>p. p \<in> set ps \<Longrightarrow> sd (fst p) = Some (snd p)"
  shows "copy_tensors ps sd st = st"
  using assms by (induction ps arbitrary: st) simp_all

lemma copy_tensors_self:
  assumes "distinct (map fst m)"
  shows "copy_tensors m (map_of m) st = st"
proof (rule copy_tensors_same)
  fix p assume "p \<in> set m"
  then have "(fst p, snd p) \<in> set m" by simp
  with assms show "map_of m (fst p) = Some (snd p)" by (rule map_of_is_SomeI)
qed

lemma load_state_dict_self:
  assumes "distinct (map fst m)"
  shows "load_state_dict m m st = Inr (st, [], [])"
proof -
  have "filter (\<lambda>k. map_of m k = None) (map fst m) = []"
    by (simp add: filter_empty_conv map_of_eq_None_iff)
  moreover have "filter (\<lambda>k. k \<notin> set (map fst m)) (map fst m) = []"
    by (simp add: filter_empty_conv)
  ultimately show ?thesis
    by (simp add: load_state_dict_def copy_tensors_self[OF assms])
qed

lemma copy_tensors_other:
  "a \<notin> snd ` set ps \<Longrightarrow> copy_tensors ps sd st a = st a"
  by (induction ps arbitrary: st) (auto split: option.splits)

lemma copy_tensors_target:
  assumes "distinct (map snd ps)"
    and "\<forall>q src. q \<in> set ps \<and> sd (fst q) = Some src \<longrightarrow> src \<notin> snd ` set ps"
    and "p \<in> set ps" and "sd (fst p) = Some src"
  shows "copy_tensors ps sd st (snd p) = (st :: 'v storage) src"
  using assms
proof (induction ps arbitrary: st)
  case Nil
  then show ?case by simp
next
  case (Cons q qs)
  have d: "distinct (map snd qs)" and nq: "snd q \<notin> snd ` set qs"
    using Cons.prems(1) by auto
  have out: "\<forall>r src'. r \<in> set qs \<and> sd (fst r) = Some src' \<longrightarrow> src' \<notin> snd ` set qs"
    using Cons.prems(2) by auto
  have "src \<notin> snd ` set (q # qs)"
    using Cons.prems(2) Cons.prems(3) Cons.prems(4) by blast
  then have src: "src \<noteq> snd q" "src \<notin> snd ` set qs" by auto
  show ?case
  proof (cases "p \<in> set qs")
    case True
    have "copy_tensors qs sd st' (snd p) = st' src" for st' :: "'v storage"
      by (rule Cons.IH[OF d out True Cons.prems(4)])
    then show ?thesis using src by (simp split: option.splits)
  next
    case False
    with Cons.prems(3) have pq: "p = q" by simp
    show ?thesis using pq Cons.prems(4) nq by (simp add: copy_tensors_other)
  qed
qed

text \<open>Loading a dictionary with the module's keys and tensors of its own copies their values.\<close>
lemma load_state_dict_copy:
  assumes "distinct (map fst m)" and "distinct (map snd m)"
    and "map fst d = map fst m" and "set (map snd d) \<inter> set (map snd m) = {}"
  shows "\<exists>st'. load_state_dict m d st = Inr (st', [], []) \<and>
           read_tensors st' m = read_tensors st d \<and> read_tensors st' d = read_tensors st d"
proof -
  let ?st = "copy_tensors m (map_of d) st"
  have dd: "distinct (map fst d)" using assms(1,3) by simp
  have "filter (\<lambda>k. map_of d k = None) (map fst m) = []"
    by (simp add: filter_empty_conv map_of_eq_None_iff assms(3)[symmetric])
  moreover have "filter (\<lambda>k. k \<notin> set (map fst m)) (map fst d) = []"
    by (simp add: filter_empty_conv assms(3))
  ultimately have l: "load_state_dict m d st = Inr (?st, [], [])"
    by (simp add: load_state_dict_def)
  have src_out: "\<forall>q src. q \<in> set m \<and> map_of d (fst q) = Some src \<longrightarrow> src \<notin> snd ` set m"
  proof (intro allI impI)
    fix q src assume "q \<in> set m \<and> map_of d (fst q) = Some src"
    then have "(fst q, src) \<in> set d" by (auto dest: map_of_SomeD)
    then have "src \<in> set (map snd d)" by force
    with assms(4) show "src \<notin> snd ` set m" by auto
  qed
  have len: "length d = length m" using assms(3) by (metis length_map)
  have "read_tensors ?st m = read_tensors st d"
  proof (rule nth_equalityI)
    show "length (read_tensors ?st m) = length (read_tensors st d)"
      by (simp add: read_tensors_def len)
  next
    fix i assume "i < length (read_tensors ?st m)"
    then have i: "i < length m" by (simp add: read_tensors_def)
    then have id: "i < length d" using len by simp
    have "fst (d ! i) = fst (m ! i)" using assms(3) i id by (metis nth_map)
    moreover have "(fst (d ! i), snd (d ! i)) \<in> set d" using id by simp
    ultimately have "map_of d (fst (m ! i)) = Some (snd (d ! i))"
      using dd by (metis map_of_is_SomeI)
    moreover have "m ! i \<in> set m" using i by simp
    ultimately have "?st (snd (m ! i)) = st (snd (d ! i))"
      using copy_tensors_target[OF assms(2) src_out, of "m ! i" "snd (d ! i)" st] by simp
    then show "read_tensors ?st m ! i = read_tensors st d ! i"
      using i id by (simp add: read_tensors_def)
  qed
  moreover have "read_tensors ?st d = read_tensors st d"
    unfolding read_tensors_def
  proof (rule map_cong[OF refl])
    fix p assume "p \<in> set d"
    then have "snd p \<in> set (map snd d)" by simp
    with assms(4) have "snd p \<notin> snd ` set m" by auto
    then show "?st (snd p) = st (snd p)" by (rule copy_tensors_other)
  qed
  ultimately show ?thesis using l by blast
qed

lemma train_tasks_total:
  assumes "\<And>w r vs. \<exists>y. fit_episode env w r vs = Inr y"
  shows "\<exists>y. train_tasks env n s = Inr y"
proof (induction n)
  case 0
  then show ?case by simp
next
  case (Suc n)
  then obtain s1 ls where a: "train_tasks env n s = Inr (s1, ls)" by force
  from assms obtain y where
    "fit_episode env (hidden s1) (lr s1) (read_tensors (storage s1) (model env)) = Inr y" by blast
  with a show ?case by (cases y) simp
qed

lemma validate_tasks_total:
  assumes "\<And>w vs. \<exists>y. predict_episode env w vs = Inr y"
  shows "\<exists>y. validate_tasks env n s = Inr y"
proof (induction n)
  case 0
  then show ?case by simp
next
  case (Suc n)
  then obtain s1 ys ps where a: "validate_tasks env n s = Inr (s1, ys, ps)"
    by (metis prod_cases3)
  from assms obtain y where
    "predict_episode env (hidden s1) (read_tensors (storage s1) (model env)) = Inr y" by blast
  with a show ?case by (cases y) simp
qed

lemma epoch_body_total:
  assumes "\<And>w r vs. \<exists>y. fit_episode env w r vs = Inr y"
    and "\<And>w vs. \<exists>y. predict_episode env w vs = Inr y"
  shows "\<exists>s'. epoch_body env e s = Inr s'"
proof -
  let ?t = "s\<lparr>stdout := stdout s @ [Epoch_line e]\<rparr>"
  from train_tasks_total[OF assms(1)] obtain s1 ls where
    "train_tasks env N_TASKS_PER_EPOCH ?t = Inr (s1, ls)" by (metis surj_pair)
  then have t: "training_epoch env ?t = Inr (s1, sum_list ls / real (length ls))"
    by (simp add: training_epoch_def)
  from validate_tasks_total[OF assms(2)] obtain s2 ys ps where
    "validate_tasks env N_VALIDATION_TASKS s1 = Inr (s2, ys, ps)" by (metis prod_cases3)
  then have "\<exists>res. evaluate_model env s1 = Inr (s2, res)"
    by (simp add: evaluate_model_def)
  with t show ?thesis by (auto simp: epoch_body_def Let_def)
qed

lemma run_epochs_total:
  assumes "\<And>w r vs. \<exists>y. fit_episode env w r vs = Inr y"
    and "\<And>w vs. \<exists>y. predict_episode env w vs = Inr y"
  shows "\<exists>s'. run_epochs env n s = Inr s'"
proof (induction n)
  case 0
  then show ?case by simp
next
  case (Suc n)
  then obtain s1 where "run_epochs env n s = Inr s1" by blast
  with epoch_body_total[OF assms, of n s1] show ?case by simp
qed

lemma retrieve_best_aliased:
  assumes "distinct (map fst (model env))" and "entries (best_state s) = model env"
  shows "retrieve_best env s =
     Inr (s\<lparr>storage := storage s, calls := calls s @ [Load_state_dict],
            stdout := stdout s @ [Best_f1_line N_EPOCHS (best_f1_score s),
                                  Best_recall_line N_EPOCHS (best_recall s)]\<rparr>)"
  by (simp add: retrieve_best_def assms(2) load_state_dict_self[OF assms(1)])


subsection \<open>The small instance, step by step\<close>


lemma epoch_body_passes:
  assumes "epoch_body env e s = Inr s'"
  shows "\<exists>s1 loss s2 res.
     training_epoch env (s\<lparr>stdout := stdout s @ [Epoch_line e]\<rparr>) = Inr (s1, loss) \<and>
     evaluate_model env s1 = Inr (s2, res) \<and>
     storage s' = storage s1 \<and>
     tb_writer s' = tb_writer s @
       [(''Train/loss'', loss, e), (''F1'', f1_score res, e), (''Recall'', recall res, e)]"
proof -
  let ?t = "s\<lparr>stdout := stdout s @ [Epoch_line e]\<rparr>"
  from assms obtain s1 l where t: "training_epoch env ?t = Inr (s1, l)"
    by (auto simp: epoch_body_def split: sum.splits)
  from assms t obtain s2 res where v: "evaluate_model env s1 = Inr (s2, res)"
    by (auto simp: epoch_body_def split: sum.splits)
  from training_epoch_Inr[OF t] obtain losses where
    tt: "train_tasks env N_TASKS_PER_EPOCH ?t = Inr (s1, losses)" by blast
  from evaluate_model_Inr[OF v] obtain ys ps where
    vt: "validate_tasks env N_VALIDATION_TASKS s1 = Inr (s2, ys, ps)" by blast
  note a = train_tasks_Inr[OF tt]
  note b = validate_tasks_Inr[OF vt]
  have s': "s' = scheduler_step
      ((track_recall env (recall res) (track_f1 (f1_score res) s2))
         \<lparr>tb_writer := tb_writer (track_recall env (recall res) (track_f1 (f1_score res) s2)) @
            [(''Train/loss'', l, e), (''F1'', f1_score res, e), (''Recall'', recall res, e)]\<rparr>)"
    using assms t v by (simp add: epoch_body_def Let_def)
  have "storage s' = storage s1 \<and> tb_writer s' = tb_writer s @
       [(''Train/loss'', l, e), (''F1'', f1_score res, e), (''Recall'', recall res, e)]"
    using a b by (simp add: s' scheduler_step_def track_recall_def track_f1_def Let_def)
  with t v show ?thesis by blast
qed

lemma demo_sel:
  "model (demo c bad) = [(''backbone.weight'', 0)]"
  "fit_episode (demo c None) w r vs = Inr (w, map (\<lambda>v. v + 1) vs, 1)"
  "predict_episode (demo c bad) w vs = Inr (w, [1], [if vs = [c] then 1 else 0])"
  "recall_metric (demo c bad) = demo_recall"
  "f1_metric (demo c bad) = demo_f1"
  by (simp_all add: demo_def)

lemma demo_fit:
  "fit_episode (demo c bad) w r vs =
     (if (case bad of None \<Rightarrow> False | Some b \<Rightarrow> vs = [b])
      then Inl (FrameworkError ''loss is nan'', w, vs)
      else Inr (w, map (\<lambda>v. v + 1) vs, 1))"
  by (simp add: demo_def)

lemma demo_train_tasks:
  "train_tasks (demo c bad) n s = Inr (s', ls) \<Longrightarrow>
     storage s' 0 = storage s 0 + int n \<and> ls = replicate n 1"
proof (induction n arbitrary: s' ls)
  case 0
  then show ?case by simp
next
  case (Suc n)
  from Suc.prems obtain s1 l1 where a: "train_tasks (demo c bad) n s = Inr (s1, l1)"
    by (auto split: sum.splits)
  note b = Suc.IH[OF a]
  from Suc.prems a have "storage s' 0 = storage s1 0 + 1" and "ls = l1 @ [1]"
    by (auto simp: demo_fit demo_sel read_tensors_def split: if_splits)
  with b show ?case by (simp add: replicate_append_same)
qed

lemma demo_validate_tasks:
  "validate_tasks (demo c bad) n s = Inr (s', ys, ps) \<Longrightarrow>
     ys = replicate n (Suc 0) \<and> ps = replicate n (if storage s 0 = c then Suc 0 else 0)"
proof (induction n arbitrary: s' ys ps)
  case 0
  then show ?case by simp
next
  case (Suc n)
  from Suc.prems obtain s1 y1 p1 where a: "validate_tasks (demo c bad) n s = Inr (s1, y1, p1)"
    by (auto split: sum.splits)
  note b = Suc.IH[OF a]
  have st: "storage s1 = storage s" using validate_tasks_Inr[OF a] by simp
  from Suc.prems a have "ys = y1 @ [Suc 0]" and "ps = p1 @ [if storage s 0 = c then Suc 0 else 0]"
    by (auto simp: demo_sel read_tensors_def st)
  with b show ?case by (simp add: replicate_append_same)
qed

lemma demo_recall_replicate:
  "0 < n \<Longrightarrow> demo_recall (replicate n (Suc 0)) (replicate n (if b then Suc 0 else 0)) = (if b then 1 else 0)"
  by (simp add: demo_recall_def)

lemma demo_f1_replicate:
  "0 < n \<Longrightarrow> demo_f1 (replicate n (Suc 0)) (replicate n (if b then Suc 0 else 0)) = (if b then 1 else 0)"
  by (simp add: demo_f1_def)

lemma demo_epoch_body:
  assumes "epoch_body (demo c bad) e s = Inr s'"
  shows "storage s' 0 = storage s 0 + 10 \<and>
     tb_writer s' = tb_writer s @
       [(''Train/loss'', 1, e), (''F1'', if storage s 0 + 10 = c then 1 else 0, e),
        (''Recall'', if storage s 0 + 10 = c then 1 else 0, e)]"
proof -
  let ?t = "s\<lparr>stdout := stdout s @ [Epoch_line e]\<rparr>"
  from epoch_body_passes[OF assms] obtain s1 loss s2 res where
    t: "training_epoch (demo c bad) ?t = Inr (s1, loss)" and
    v: "evaluate_model (demo c bad) s1 = Inr (s2, res)" and
    st: "storage s' = storage s1" and
    tb: "tb_writer s' = tb_writer s @
       [(''Train/loss'', loss, e), (''F1'', f1_score res, e), (''Recall'', recall res, e)]"
    by blast
  from training_epoch_Inr[OF t] obtain losses where
    l: "loss = sum_list losses / real N_TASKS_PER_EPOCH" and
    tt: "train_tasks (demo c bad) N_TASKS_PER_EPOCH ?t = Inr (s1, losses)" by blast
  from demo_train_tasks[OF tt] have
    s1: "storage s1 0 = storage s 0 + 10" and ls: "losses = replicate N_TASKS_PER_EPOCH 1"
    by (simp_all add: N_TASKS_PER_EPOCH_def)
  have loss: "loss = 1" by (simp add: l ls sum_list_replicate N_TASKS_PER_EPOCH_def)
  from evaluate_model_Inr[OF v] obtain ys ps where
    vt: "validate_tasks (demo c bad) N_VALIDATION_TASKS s1 = Inr (s2, ys, ps)" and
    m: "recall res = demo_recall ys ps" "f1_score res = demo_f1 ys ps"
    by (auto simp: demo_sel)
  have pos: "0 < N_VALIDATION_TASKS" by (simp add: N_VALIDATION_TASKS_def)
  from demo_validate_tasks[OF vt] have
    "recall res = (if storage s1 0 = c then 1 else 0)" "f1_score res = (if storage s1 0 = c then 1 else 0)"
    by (simp_all only: m demo_recall_replicate[OF pos] demo_f1_replicate[OF pos])
  then show ?thesis using st s1 tb loss by simp
qed


subsection \<open>Further facts about the loop and the instance\<close>

lemma demo_run_total: "\<exists>s. run_epochs (demo c None) n s0 = Inr s"
  by (rule run_epochs_total) (simp_all add: demo_sel)

lemma initial_fresh: "dict_id (best_state (initial env w st)) < next_id (initial env w st)"
  by (simp add: initial_def state_dict_def)

lemma initial_entries: "entries (best_state (initial env w st)) = model env"
  by (simp add: initial_def state_dict_def)

lemma demo_epoch_recall:
  assumes "epoch_body (demo c bad) e s = Inr s'"
  shows "best_recall s' = max (best_recall s) (if storage s 0 + 10 = c then 1 else 0) \<and>
     best_state s' = (if (if storage s 0 + 10 = c then 1 else 0) > best_recall s
                      then state_dict (model (demo c bad)) (next_id s) else best_state s)"
proof -
  from epoch_body_Inr[OF assms] obtain losses f r and ys ps :: "nat list" where
    tb: "tb_writer s' = tb_writer s @
         [(''Train/loss'', sum_list losses / real N_TASKS_PER_EPOCH, e), (''F1'', f, e), (''Recall'', r, e)]"
    and br: "best_recall s' = max (best_recall s) r"
    and bs: "best_state s' = (if r > best_recall s then state_dict (model (demo c bad)) (next_id s) else best_state s)"
    by blast
  from demo_epoch_body[OF assms] tb have "r = (if storage s 0 + 10 = c then 1 else 0)" by simp
  with br bs show ?thesis by simp
qed

lemma train_cell_loop:
  assumes "run_epochs env N_EPOCHS (initial env w st) = Inr s"
  shows "train_cell env w st = retrieve_best env s"
  using assms by (simp add: train_cell_def)

lemma train_cell_Inr:
  assumes "train_cell env w st = Inr s'"
  obtains s where "run_epochs env N_EPOCHS (initial env w st) = Inr s" and "retrieve_best env s = Inr s'"
  using assms by (auto simp: train_cell_def split: sum.splits)

lemma demo_distinct: "distinct (map fst (model (demo c bad)))"
  by (simp add: demo_sel)

lemma demo_train_cell_total: "\<exists>s. train_cell (demo c None) w st = Inr s"
proof -
  obtain s where r: "run_epochs (demo c None) N_EPOCHS (initial (demo c None) w st) = Inr s"
    using demo_run_total by blast
  have "entries (best_state s) = model (demo c None)"
    by (rule run_epochs_entries[OF r initial_entries])
  from retrieve_best_aliased[OF demo_distinct this] train_cell_loop[OF r]
  show ?thesis by simp
qed

lemma no_load_in_loop: "Load_state_dict \<notin> set (concat (replicate n epoch_calls))"
  by (auto simp: epoch_calls_def)

lemma scalars_append: "scalars tag (xs @ ys) = scalars tag xs @ scalars tag ys"
  by (simp add: scalars_def)

lemma scalars_epoch:
  "scalars ''Recall'' [(''Train/loss'', l, e), (''F1'', f, e), (''Recall'', r, e)] = [r]"
  "scalars ''F1'' [(''Train/loss'', l, e), (''F1'', f, e), (''Recall'', r, e)] = [f]"
  by (simp_all add: scalars_def)

lemma train_cell_fields:
  assumes "distinct (map fst (model env))"
    and "run_epochs env N_EPOCHS (initial env w st) = Inr s"
  shows "\<exists>s'. train_cell env w st = Inr s' \<and> storage s' = storage s \<and>
     best_state s' = best_state s \<and> best_recall s' = best_recall s \<and>
     best_f1_score s' = best_f1_score s \<and> tb_writer s' = tb_writer s \<and>
     calls s' = calls s @ [Load_state_dict] \<and>
     stdout s' = stdout s @ [Best_f1_line N_EPOCHS (best_f1_score s),
                             Best_recall_line N_EPOCHS (best_recall s)]"
proof -
  have e: "entries (best_state s) = model env"
    by (rule run_epochs_entries[OF assms(2) initial_entries])
  show ?thesis
    unfolding train_cell_loop[OF assms(2)] retrieve_best_aliased[OF assms(1) e] by simp
qed

lemma count_list_replicate: "count_list (replicate n x) y = (if x = y then n else 0)"
  by (induction n) auto

lemma count_step_in_loop: "count_list (concat (replicate n epoch_calls)) Scheduler_step = n"
  by (induction n) (simp_all add: epoch_calls_def count_list_replicate)

lemma run_epochs_prefix:
  assumes "run_epochs env n s0 = Inr s" and "e \<le> n"
  shows "\<exists>a. run_epochs env e s0 = Inr a"
  using assms
proof (induction n arbitrary: s)
  case 0
  then show ?case by simp
next
  case (Suc n)
  from Suc.prems(1) obtain a where a: "run_epochs env n s0 = Inr a"
    by (rule run_epochs_Suc_Inr)
  show ?case
  proof (cases "e = Suc n")
    case True
    then show ?thesis using Suc.prems(1) by blast
  next
    case False
    with Suc.prems(2) have "e \<le> n" by simp
    from Suc.IH[OF a this] show ?thesis .
  qed
qed

lemma run_epochs_Inl_mono:
  assumes "run_epochs env k s0 = Inl x" and "k \<le> n"
  shows "run_epochs env n s0 = Inl x"
  using assms(2,1) by (induction rule: dec_induct) simp_all

lemma epoch_lines_append: "epoch_lines (xs @ ys) = epoch_lines xs @ epoch_lines ys"
  by (induction xs rule: epoch_lines.induct) simp_all

lemma run_epochs_epoch_lines:
  assumes "run_epochs env k s0 = Inr s"
  shows "epoch_lines (stdout s) = epoch_lines (stdout s0) @ [0..<k]"
proof (rule run_epochs_invariant[OF assms, where P = "\<lambda>n a. epoch_lines (stdout a) = epoch_lines (stdout s0) @ [0..<n]"])
  show "epoch_lines (stdout s0) = epoch_lines (stdout s0) @ [0..<0]" by simp
next
  fix n a b
  assume p: "epoch_lines (stdout a) = epoch_lines (stdout s0) @ [0..<n]"
    and body: "epoch_body env n a = Inr b"
  from epoch_body_Inr[OF body] obtain r where
    "stdout b = stdout a @ Epoch_line n # (if r > best_recall a then [Ding_line] else [])"
    by blast
  then show "epoch_lines (stdout b) = epoch_lines (stdout s0) @ [0..<Suc n]"
    using p by (simp add: epoch_lines_append)
qed

lemma run_epochs_tags:
  assumes "run_epochs env k s0 = Inr s"
  shows "map (\<lambda>x. (fst x, snd (snd x))) (tb_writer s) =
         map (\<lambda>x. (fst x, snd (snd x))) (tb_writer s0) @ concat (map epoch_tags [0..<k])"
proof (rule run_epochs_invariant[OF assms, where P = "\<lambda>n a. map (\<lambda>x. (fst x, snd (snd x))) (tb_writer a) =
         map (\<lambda>x. (fst x, snd (snd x))) (tb_writer s0) @ concat (map epoch_tags [0..<n])"])
  show "map (\<lambda>x. (fst x, snd (snd x))) (tb_writer s0) =
         map (\<lambda>x. (fst x, snd (snd x))) (tb_writer s0) @ concat (map epoch_tags [0..<0])" by simp
next
  fix n a b
  assume p: "map (\<lambda>x. (fst x, snd (snd x))) (tb_writer a) =
         map (\<lambda>x. (fst x, snd (snd x))) (tb_writer s0) @ concat (map epoch_tags [0..<n])"
    and body: "epoch_body env n a = Inr b"
  from epoch_body_Inr[OF body] obtain loss f r where
    "tb_writer b = tb_writer a @ [(''Train/loss'', loss, n), (''F1'', f, n), (''Recall'', r, n)]"
    by blast
  then show "map (\<lambda>x. (fst x, snd (snd x))) (tb_writer b) =
         map (\<lambda>x. (fst x, snd (snd x))) (tb_writer s0) @ concat (map epoch_tags [0..<Suc n])"
    using p by (simp add: epoch_tags_def)
qed

lemma retrieve_best_Inr:
  assumes "retrieve_best env s = Inr s'"
  shows "calls s' = calls s @ [Load_state_dict] \<and>
     stdout s' = stdout s @ [Best_f1_line N_EPOCHS (best_f1_score s),
                             Best_recall_line N_EPOCHS (best_recall s)] \<and>
     tb_writer s' = tb_writer s \<and> best_recall s' = best_recall s \<and>
     best_f1_score s' = best_f1_score s \<and> best_state s' = best_state s"
  using assms by (auto simp: retrieve_best_def split: sum.splits)

lemma epoch_detail:
  assumes "epoch_body env e a = Inr b"
  shows "\<exists>s1 losses s2 res.
     train_tasks env N_TASKS_PER_EPOCH (a\<lparr>stdout := stdout a @ [Epoch_line e]\<rparr>) = Inr (s1, losses) \<and>
     length losses = N_TASKS_PER_EPOCH \<and>
     calls s1 = calls a @ replicate N_TASKS_PER_EPOCH Fit_episode \<and>
     evaluate_model env s1 = Inr (s2, res) \<and>
     calls s2 = calls s1 @ replicate N_VALIDATION_TASKS Predict_episode \<and>
     recall res = recall_metric env (actuals res) (predictions res) \<and>
     f1_score res = f1_metric env (actuals res) (predictions res) \<and>
     tb_writer b = tb_writer a @
       [(''Train/loss'', sum_list losses / real N_TASKS_PER_EPOCH, e),
        (''F1'', f1_score res, e), (''Recall'', recall res, e)]"
proof -
  let ?u = "a\<lparr>stdout := stdout a @ [Epoch_line e]\<rparr>"
  from epoch_body_passes[OF assms] obtain s1 loss s2 res where
    t: "training_epoch env ?u = Inr (s1, loss)" and
    v: "evaluate_model env s1 = Inr (s2, res)" and
    tb: "tb_writer b = tb_writer a @
       [(''Train/loss'', loss, e), (''F1'', f1_score res, e), (''Recall'', recall res, e)]"
    by blast
  from training_epoch_Inr[OF t] obtain losses where
    l: "length losses = N_TASKS_PER_EPOCH" "loss = sum_list losses / real N_TASKS_PER_EPOCH"
    and tt: "train_tasks env N_TASKS_PER_EPOCH ?u = Inr (s1, losses)" by blast
  have c1: "calls s1 = calls a @ replicate N_TASKS_PER_EPOCH Fit_episode"
    using train_tasks_Inr[OF tt] by simp
  from v obtain ys ps where
    vt: "validate_tasks env N_VALIDATION_TASKS s1 = Inr (s2, ys, ps)"
    and res: "res = \<lparr>actuals = ys, predictions = ps,
                    recall = recall_metric env ys ps, f1_score = f1_metric env ys ps\<rparr>"
    by (auto simp: evaluate_model_def split: sum.splits)
  have c2: "calls s2 = calls s1 @ replicate N_VALIDATION_TASKS Predict_episode"
    using validate_tasks_Inr[OF vt] by simp
  have m: "recall res = recall_metric env (actuals res) (predictions res)"
    "f1_score res = f1_metric env (actuals res) (predictions res)"
    by (simp_all add: res)
  from tt l c1 v c2 m tb show ?thesis by blast
qed

lemma Max_snoc: "Max (set (x # xs @ [y])) = max (Max (set (x # xs))) (y :: real)"
proof -
  have "set (x # xs @ [y]) = insert y (set (x # xs))" by auto
  then show ?thesis by (simp add: max.commute del: Max_insert set_simps)
      (metis List.finite_set Max_insert max.commute set_empty list.distinct(1))
qed

lemma run_epochs_best:
  assumes "run_epochs env k (initial env w st) = Inr s"
  shows "length (scalars ''Recall'' (tb_writer s)) = k \<and>
     length (scalars ''F1'' (tb_writer s)) = k \<and>
     best_recall s = Max (set (0 # scalars ''Recall'' (tb_writer s))) \<and>
     best_f1_score s = Max (set (0 # scalars ''F1'' (tb_writer s)))"
proof (rule run_epochs_invariant[OF assms, where P = "\<lambda>n a.
     length (scalars ''Recall'' (tb_writer a)) = n \<and>
     length (scalars ''F1'' (tb_writer a)) = n \<and>
     best_recall a = Max (set (0 # scalars ''Recall'' (tb_writer a))) \<and>
     best_f1_score a = Max (set (0 # scalars ''F1'' (tb_writer a)))"])
  show "length (scalars ''Recall'' (tb_writer (initial env w st))) = 0 \<and>
     length (scalars ''F1'' (tb_writer (initial env w st))) = 0 \<and>
     best_recall (initial env w st) = Max (set (0 # scalars ''Recall'' (tb_writer (initial env w st)))) \<and>
     best_f1_score (initial env w st) = Max (set (0 # scalars ''F1'' (tb_writer (initial env w st))))"
    by (simp add: initial_def scalars_def)
next
  fix n a b
  assume p: "length (scalars ''Recall'' (tb_writer a)) = n \<and>
     length (scalars ''F1'' (tb_writer a)) = n \<and>
     best_recall a = Max (set (0 # scalars ''Recall'' (tb_writer a))) \<and>
     best_f1_score a = Max (set (0 # scalars ''F1'' (tb_writer a)))"
    and body: "epoch_body env n a = Inr b"
  from epoch_body_Inr[OF body] obtain loss f r where
    tb: "tb_writer b = tb_writer a @ [(''Train/loss'', loss, n), (''F1'', f, n), (''Recall'', r, n)]"
    and bf: "best_f1_score b = max (best_f1_score a) f"
    and br: "best_recall b = max (best_recall a) r"
    by blast
  have sr: "scalars ''Recall'' (tb_writer b) = scalars ''Recall'' (tb_writer a) @ [r]"
    and sf: "scalars ''F1'' (tb_writer b) = scalars ''F1'' (tb_writer a) @ [f]"
    by (simp_all add: tb scalars_append scalars_epoch)
  show "length (scalars ''Recall'' (tb_writer b)) = Suc n \<and>
     length (scalars ''F1'' (tb_writer b)) = Suc n \<and>
     best_recall b = Max (set (0 # scalars ''Recall'' (tb_writer b))) \<and>
     best_f1_score b = Max (set (0 # scalars ''F1'' (tb_writer b)))"
    unfolding sr sf Max_snoc using p bf br by simp
qed

lemma run_epochs_mono_add:
  assumes "run_epochs env k s0 = Inr s" and "run_epochs env (k + j) s0 = Inr s'"
  shows "best_recall s \<le> best_recall s' \<and> best_f1_score s \<le> best_f1_score s'"
  using assms(2)
proof (induction j arbitrary: s')
  case 0
  with assms(1) show ?case by simp
next
  case (Suc j)
  from Suc.prems have "run_epochs env (Suc (k + j)) s0 = Inr s'" by simp
  then obtain a where a: "run_epochs env (k + j) s0 = Inr a"
    and body: "epoch_body env (k + j) a = Inr s'" by (rule run_epochs_Suc_Inr)
  from epoch_body_Inr[OF body] have "best_recall a \<le> best_recall s'" "best_f1_score a \<le> best_f1_score s'"
    by auto
  with Suc.IH[OF a] show ?case by simp
qed

lemma train_tasks_Inl_mono:
  assumes "train_tasks env j s = Inl x" and "j \<le> n"
  shows "train_tasks env n s = Inl x"
  using assms(2,1) by (induction rule: dec_induct) simp_all

lemma validate_tasks_Inl_mono:
  assumes "validate_tasks env j s = Inl x" and "j \<le> n"
  shows "validate_tasks env n s = Inl x"
  using assms(2,1) by (induction rule: dec_induct) simp_all

lemma training_epoch_Inl:
  "training_epoch env s = Inl x \<longleftrightarrow> train_tasks env N_TASKS_PER_EPOCH s = Inl x"
  by (auto simp: training_epoch_def split: sum.splits)

lemma evaluate_model_Inl:
  "evaluate_model env s = Inl x \<longleftrightarrow> validate_tasks env N_VALIDATION_TASKS s = Inl x"
  by (auto simp: evaluate_model_def split: sum.splits)

lemma epoch_body_Inl:
  "epoch_body env e s = Inl x \<longleftrightarrow>
     training_epoch env (s\<lparr>stdout := stdout s @ [Epoch_line e]\<rparr>) = Inl x \<or>
     (\<exists>s1 l. training_epoch env (s\<lparr>stdout := stdout s @ [Epoch_line e]\<rparr>) = Inr (s1, l) \<and>
             evaluate_model env s1 = Inl x)"
  by (auto simp: epoch_body_def Let_def split: sum.splits)

lemma load_error_ends_the_cell:
  assumes "run_epochs env N_EPOCHS (initial env w st) = Inr s"
    and "retrieve_best env s = Inl x"
  shows "train_cell env w st = Inl x"
  using assms by (simp add: train_cell_def)

subsection \<open>The notebook with raising calls\<close>

text \<open>
  A statement that raises nothing does what it does in the training cell above, so a run
  of the notebook that ends normally is a run of that cell.
\<close>
lemma track_recall_fw_Inr:
  "track_recall_fw env fw r s = Inr s' \<Longrightarrow> s' = track_recall env r s"
  by (auto simp: track_recall_fw_def track_recall_def split: if_splits option.splits)

lemma add_scalar_fw_Inr:
  "add_scalar_fw fw tag v step s = Inr s' \<Longrightarrow> s' = s\<lparr>tb_writer := tb_writer s @ [(tag, v, step)]\<rparr>"
  by (auto simp: add_scalar_fw_def split: option.splits)

lemma scheduler_step_fw_Inr:
  "scheduler_step_fw fw s = Inr s' \<Longrightarrow> s' = scheduler_step s"
  by (auto simp: scheduler_step_fw_def split: option.splits)

lemma epoch_body_fw_Inr:
  assumes "epoch_body_fw env fw e s = Inr s'"
  shows "epoch_body env e s = Inr s'"
proof -
  let ?t = "s\<lparr>stdout := stdout s @ [Epoch_line e]\<rparr>"
  from assms obtain s1 l where t: "training_epoch env ?t = Inr (s1, l)"
    by (auto simp: epoch_body_fw_def split: sum.splits)
  from assms t obtain s2 res where v: "evaluate_model env s1 = Inr (s2, res)"
    by (auto simp: epoch_body_fw_def split: sum.splits)
  from assms t v obtain s4 where
    a: "track_recall_fw env fw (recall res) (track_f1 (f1_score res) s2) = Inr s4"
    by (auto simp: epoch_body_fw_def split: sum.splits)
  from assms t v a obtain s5 where b: "add_scalar_fw fw ''Train/loss'' l e s4 = Inr s5"
    by (auto simp: epoch_body_fw_def split: sum.splits)
  from assms t v a b obtain s6 where c: "add_scalar_fw fw ''F1'' (f1_score res) e s5 = Inr s6"
    by (auto simp: epoch_body_fw_def split: sum.splits)
  from assms t v a b c obtain s7 where d: "add_scalar_fw fw ''Recall'' (recall res) e s6 = Inr s7"
    by (auto simp: epoch_body_fw_def split: sum.splits)
  from assms t v a b c d have f: "scheduler_step_fw fw s7 = Inr s'"
    by (simp add: epoch_body_fw_def)
  show ?thesis
    using track_recall_fw_Inr[OF a] add_scalar_fw_Inr[OF b] add_scalar_fw_Inr[OF c]
      add_scalar_fw_Inr[OF d] scheduler_step_fw_Inr[OF f]
    by (simp add: epoch_body_def t v Let_def)
qed

lemma run_epochs_fw_Inr:
  "run_epochs_fw env fw k s0 = Inr s \<Longrightarrow> run_epochs env k s0 = Inr s"
proof (induction k arbitrary: s)
  case 0
  then show ?case by simp
next
  case (Suc k)
  from Suc.prems obtain a where a: "run_epochs_fw env fw k s0 = Inr a"
    and b: "epoch_body_fw env fw k a = Inr s" by (auto split: sum.splits)
  from Suc.IH[OF a] epoch_body_fw_Inr[OF b] show ?case by simp
qed

lemma notebook_run_Finished:
  assumes "notebook_run env fw w0 st = Finished sf"
  shows "\<exists>w. run_setup fw setup_calls w0 = Inr w \<and> train_cell env w st = Inr sf"
proof -
  from assms obtain w where w: "run_setup fw setup_calls w0 = Inr w"
    by (auto simp: notebook_run_def split: sum.splits)
  from assms w obtain s where r: "run_epochs_fw env fw N_EPOCHS (initial env w st) = Inr s"
    by (auto simp: notebook_run_def split: sum.splits option.splits)
  from assms w r have "retrieve_best_fw env fw s = Inr sf"
    by (auto simp: notebook_run_def split: sum.splits option.splits)
  then have "retrieve_best env s = Inr sf"
    by (auto simp: retrieve_best_fw_def split: option.splits)
  with run_epochs_fw_Inr[OF r] w show ?thesis by (auto simp: train_cell_def)
qed

lemma track_recall_fw_Inl:
  "track_recall_fw env fw r s = Inl x \<longleftrightarrow>
     r > best_recall s \<and>
     (\<exists>e. call_raises fw (hidden s) (State_dict_site (next_id s)) = Some e \<and>
          x = (e, s\<lparr>best_recall := r\<rparr>))"
  by (auto simp: track_recall_fw_def split: option.splits)

lemma add_scalar_fw_Inl:
  "add_scalar_fw fw tag v n s = Inl x \<longleftrightarrow>
     (\<exists>e. call_raises fw (hidden s) (Add_scalar_site tag n) = Some e \<and> x = (e, s))"
  by (auto simp: add_scalar_fw_def split: option.splits)

lemma scheduler_step_fw_Inl:
  "scheduler_step_fw fw s = Inl x \<longleftrightarrow>
     (\<exists>e. call_raises fw (hidden s) (Scheduler_site (last_epoch s)) = Some e \<and>
          x = (e, s\<lparr>calls := calls s @ [Scheduler_step]\<rparr>))"
  by (auto simp: scheduler_step_fw_def split: option.splits)

lemma retrieve_best_fw_Inl:
  "retrieve_best_fw env fw s = Inl x \<longleftrightarrow>
     (\<exists>e. call_raises fw (hidden s) Load_site = Some e \<and>
          x = (e, s\<lparr>calls := calls s @ [Load_state_dict]\<rparr>)) \<or>
     (call_raises fw (hidden s) Load_site = None \<and> retrieve_best env s = Inl x)"
  by (auto simp: retrieve_best_fw_def split: option.splits)

lemma epoch_body_fw_Inl:
  "epoch_body_fw env fw k s = Inl x \<longleftrightarrow>
     (\<exists>s1 loss s2 res s4 s5 s6 s7.
        training_epoch env (s\<lparr>stdout := stdout s @ [Epoch_line k]\<rparr>) = Inl x \<or>
        training_epoch env (s\<lparr>stdout := stdout s @ [Epoch_line k]\<rparr>) = Inr (s1, loss) \<and>
       (evaluate_model env s1 = Inl x \<or>
        evaluate_model env s1 = Inr (s2, res) \<and>
       (track_recall_fw env fw (recall res) (track_f1 (f1_score res) s2) = Inl x \<or>
        track_recall_fw env fw (recall res) (track_f1 (f1_score res) s2) = Inr s4 \<and>
       (add_scalar_fw fw ''Train/loss'' loss k s4 = Inl x \<or>
        add_scalar_fw fw ''Train/loss'' loss k s4 = Inr s5 \<and>
       (add_scalar_fw fw ''F1'' (f1_score res) k s5 = Inl x \<or>
        add_scalar_fw fw ''F1'' (f1_score res) k s5 = Inr s6 \<and>
       (add_scalar_fw fw ''Recall'' (recall res) k s6 = Inl x \<or>
        add_scalar_fw fw ''Recall'' (recall res) k s6 = Inr s7 \<and>
        scheduler_step_fw fw s7 = Inl x))))))"
  unfolding epoch_body_fw_def
  by (auto split: sum.splits prod.splits)

lemma run_setup_append:
  "run_setup fw (cs @ ds) w =
     (case run_setup fw cs w of Inl x \<Rightarrow> Inl x | Inr w1 \<Rightarrow> run_setup fw ds w1)"
  by (induction cs arbitrary: w) (auto split: sum.splits)

lemma run_setup_raises:
  assumes "i < length cs" and "run_setup fw (take i cs) w = Inr w1"
    and "setup_call fw (cs ! i) w1 = Inl x"
  shows "run_setup fw cs w = Inl x"
proof -
  have "cs = take i cs @ (cs ! i) # drop (Suc i) cs"
    using assms(1) by (simp add: id_take_nth_drop)
  then have "run_setup fw cs w = run_setup fw (take i cs @ (cs ! i) # drop (Suc i) cs) w"
    by simp
  also have "\<dots> = Inl x" using assms(2,3) by (simp add: run_setup_append)
  finally show ?thesis .
qed

lemma run_epochs_fw_Inl_mono:
  assumes "run_epochs_fw env fw k s0 = Inl x" and "k \<le> n"
  shows "run_epochs_fw env fw n s0 = Inl x"
  using assms(2,1) by (induction rule: dec_induct) simp_all

lemma demo_framework_sel:
  "setup_call (demo_framework bad_setup bad_site) c w =
     (if Some c = bad_setup then Inl (FrameworkError ''FileNotFoundError'', w) else Inr w)"
  "call_raises (demo_framework bad_setup bad_site) w x =
     (if Some x = bad_site then Some (FrameworkError ''OSError: No space left on device'') else None)"
  by (simp_all add: demo_framework_def)

lemma run_setup_quiet: "run_setup (demo_framework None bad_site) cs w = Inr w"
  by (induction cs arbitrary: w) (simp_all add: demo_framework_sel)

lemma train_tasks_cong:
  assumes "model env' = model env" and "fit_episode env' = fit_episode env"
  shows "train_tasks env' n s = train_tasks env n s"
  by (induction n) (simp_all add: assms split: sum.splits prod.splits)

lemma epoch_body_fw_quiet:
  assumes "\<And>w n. call_raises fw w (State_dict_site n) = None"
    and "\<And>w tag. call_raises fw w (Add_scalar_site tag e) = None"
    and "\<And>w n. call_raises fw w (Scheduler_site n) = None"
  shows "epoch_body_fw env fw e s = epoch_body env e s"
  by (simp add: epoch_body_fw_def epoch_body_def track_recall_fw_def track_recall_def
      add_scalar_fw_def scheduler_step_fw_def assms Let_def split: sum.splits)

lemma demo_unsampled_sel:
  "model demo_unsampled = model (demo 10 None)"
  "fit_episode demo_unsampled = fit_episode (demo 10 None)"
  "predict_episode demo_unsampled w vs =
     Inl (FrameworkError ''ValueError: Sample larger than population or is negative'', w)"
  by (simp_all add: demo_unsampled_def)

lemma demo_unsampled_epoch:
  fixes s :: "(unit, int) notebook"
  shows "\<exists>s1 l. training_epoch demo_unsampled s = Inr (s1, l) \<and>
     storage s1 0 = storage s 0 + 10 \<and>
     calls s1 = calls s @ replicate 10 Fit_episode \<and>
     best_state s1 = best_state s \<and> tb_writer s1 = tb_writer s \<and>
     evaluate_model demo_unsampled s1 =
       Inl (FrameworkError ''ValueError: Sample larger than population or is negative'',
            s1\<lparr>hidden := (), calls := calls s1 @ [Predict_episode]\<rparr>)"
proof -
  have eq: "train_tasks demo_unsampled n s = train_tasks (demo 10 None) n s" for n
    by (rule train_tasks_cong) (simp_all add: demo_unsampled_sel)
  obtain s1 ls where tt: "train_tasks (demo 10 None) N_TASKS_PER_EPOCH s = Inr (s1, ls)"
    using train_tasks_total[of "demo 10 None" N_TASKS_PER_EPOCH s]
    by (auto simp: demo_sel)
  then have t: "training_epoch demo_unsampled s = Inr (s1, sum_list ls / real (length ls))"
    by (simp add: training_epoch_def eq)
  have st: "storage s1 0 = storage s 0 + 10"
    using demo_train_tasks[OF tt] by (simp add: N_TASKS_PER_EPOCH_def)
  have f: "calls s1 = calls s @ replicate 10 Fit_episode" "best_state s1 = best_state s"
    "tb_writer s1 = tb_writer s"
    using train_tasks_Inr[OF tt] by (simp_all add: N_TASKS_PER_EPOCH_def)
  have "validate_tasks demo_unsampled (Suc 0) s1 =
       Inl (FrameworkError ''ValueError: Sample larger than population or is negative'',
            s1\<lparr>hidden := (), calls := calls s1 @ [Predict_episode]\<rparr>)"
    by (simp add: demo_unsampled_sel)
  from validate_tasks_Inl_mono[OF this, of N_VALIDATION_TASKS]
  have "evaluate_model demo_unsampled s1 =
       Inl (FrameworkError ''ValueError: Sample larger than population or is negative'',
            s1\<lparr>hidden := (), calls := calls s1 @ [Predict_episode]\<rparr>)"
    by (simp add: evaluate_model_Inl N_VALIDATION_TASKS_def)
  with t st f show ?thesis by blast
qed

lemma epoch_body_fw_evaluate_raises:
  assumes "training_epoch env (s\<lparr>stdout := stdout s @ [Epoch_line k]\<rparr>) = Inr (s1, l)"
    and "evaluate_model env s1 = Inl x"
  shows "epoch_body_fw env fw k s = Inl x"
  using assms by (simp add: epoch_body_fw_def)

lemma epoch_body_fw_add_scalar_raises:
  assumes "epoch_body env k s = Inr s'"
    and "\<And>w n. call_raises fw w (State_dict_site n) = None"
    and "\<And>w. call_raises fw w (Add_scalar_site ''Train/loss'' k) = None"
    and "\<And>w. call_raises fw w (Add_scalar_site ''F1'' k) = Some e"
  shows "\<exists>sf. epoch_body_fw env fw k s = Inl (e, sf) \<and>
     last_epoch sf = last_epoch s \<and> lr sf = lr s \<and>
     length (tb_writer sf) = Suc (length (tb_writer s)) \<and>
     calls sf = calls s @ replicate N_TASKS_PER_EPOCH Fit_episode @
                replicate N_VALIDATION_TASKS Predict_episode \<and>
     storage sf = storage s'"
proof -
  let ?t = "s\<lparr>stdout := stdout s @ [Epoch_line k]\<rparr>"
  from epoch_body_passes[OF assms(1)] obtain s1 loss s2 res where
    t: "training_epoch env ?t = Inr (s1, loss)" and
    v: "evaluate_model env s1 = Inr (s2, res)" and st: "storage s' = storage s1" by blast
  from training_epoch_Inr[OF t] obtain losses where
    tt: "train_tasks env N_TASKS_PER_EPOCH ?t = Inr (s1, losses)" by blast
  from evaluate_model_Inr[OF v] obtain ys ps where
    vt: "validate_tasks env N_VALIDATION_TASKS s1 = Inr (s2, ys, ps)" by blast
  note a = train_tasks_Inr[OF tt]
  note b = validate_tasks_Inr[OF vt]
  let ?s4 = "track_recall env (recall res) (track_f1 (f1_score res) s2)"
  let ?s5 = "?s4\<lparr>tb_writer := tb_writer ?s4 @ [(''Train/loss'', loss, k)]\<rparr>"
  have body: "epoch_body_fw env fw k s = Inl (e, ?s5)"
    by (simp add: epoch_body_fw_def t v track_recall_fw_def track_recall_def add_scalar_fw_def
        assms(2,3,4))
  have "last_epoch ?s5 = last_epoch s \<and> lr ?s5 = lr s \<and>
     length (tb_writer ?s5) = Suc (length (tb_writer s)) \<and>
     calls ?s5 = calls s @ replicate N_TASKS_PER_EPOCH Fit_episode @
                replicate N_VALIDATION_TASKS Predict_episode \<and>
     storage ?s5 = storage s'"
    using a b st by (simp add: track_recall_def track_f1_def)
  with body show ?thesis by blast
qed

text \<open>When no call raises, the notebook ends as the training cell does.\<close>
lemma run_epochs_fw_quiet:
  assumes "\<And>w c. call_raises fw w c = None"
  shows "run_epochs_fw env fw n s = run_epochs env n s"
  by (induction n) (simp_all add: epoch_body_fw_quiet assms split: sum.splits)

lemma notebook_run_quiet:
  assumes "\<And>w c. call_raises fw w c = None"
    and "run_setup fw setup_calls w0 = Inr w"
  shows "notebook_run env fw w0 st =
     (case train_cell env w st of Inl (e, s) \<Rightarrow> Raised e s | Inr s \<Rightarrow> Finished s)"
  by (simp add: notebook_run_def train_cell_def retrieve_best_fw_def run_epochs_fw_quiet assms
      split: sum.splits prod.splits)

section \<open>The claims\<close>

text \<open>
  C1. In every epoch of the loop the best state is replaced if and only if the recall of
  that epoch's validation pass (the value the epoch writes to the log) is strictly above the
  running best recall. The best F1 is a number only: it becomes the epoch's F1 when that is
  higher, and an F1 improvement without a recall improvement leaves the best state as it was.
\<close>

theorem best_state_replaced_iff_recall_improves:
  assumes "run_epochs env k (initial env w st) = Inr s"
    and "run_epochs env (Suc k) (initial env w st) = Inr s'"
  shows "\<exists>loss f r.
      tb_writer s' = tb_writer s @ [(''Train/loss'', loss, k), (''F1'', f, k), (''Recall'', r, k)] \<and>
      (best_state s' \<noteq> best_state s \<longleftrightarrow> r > best_recall s) \<and>
      best_state s' = (if r > best_recall s then state_dict (model env) (next_id s) else best_state s) \<and>
      best_f1_score s' = (if f > best_f1_score s then f else best_f1_score s) \<and>
      (f > best_f1_score s \<and> \<not> r > best_recall s \<longrightarrow> best_state s' = best_state s)"
proof -
  from assms have body: "epoch_body env k s = Inr s'" by simp
  have fresh: "dict_id (best_state s) < next_id s"
    by (rule run_epochs_fresh[OF assms(1) initial_fresh])
  have "dict_id (state_dict (model env) (next_id s)) = next_id s"
    by (simp add: state_dict_def)
  with fresh have new: "state_dict (model env) (next_id s) \<noteq> best_state s"
    by (metis less_irrefl)
  from epoch_body_Inr[OF body] obtain losses f r and ys ps :: "nat list" where
    tb: "tb_writer s' = tb_writer s @
         [(''Train/loss'', sum_list losses / real N_TASKS_PER_EPOCH, k), (''F1'', f, k), (''Recall'', r, k)]"
    and f1: "best_f1_score s' = max (best_f1_score s) f"
    and bs: "best_state s' = (if r > best_recall s then state_dict (model env) (next_id s) else best_state s)"
    by blast
  show ?thesis
    apply (rule exI[of _ "sum_list losses / real N_TASKS_PER_EPOCH"])
    apply (rule exI[of _ f], rule exI[of _ r])
    using tb f1 bs new by (simp add: max_def)
qed

theorem best_state_replaced_iff_recall_improves_witness:
  "\<exists>s s'. run_epochs (demo 10 None) 0 (initial (demo 10 None) () (\<lambda>a. 0)) = Inr s \<and>
     run_epochs (demo 10 None) (Suc 0) (initial (demo 10 None) () (\<lambda>a. 0)) = Inr s' \<and>
     (\<exists>loss f r.
      tb_writer s' = tb_writer s @ [(''Train/loss'', loss, 0), (''F1'', f, 0), (''Recall'', r, 0)] \<and>
      (best_state s' \<noteq> best_state s \<longleftrightarrow> r > best_recall s) \<and>
      best_state s' = (if r > best_recall s then state_dict (model (demo 10 None)) (next_id s) else best_state s) \<and>
      best_f1_score s' = (if f > best_f1_score s then f else best_f1_score s) \<and>
      (f > best_f1_score s \<and> \<not> r > best_recall s \<longrightarrow> best_state s' = best_state s))"
proof -
  let ?D = "demo 10 None" and ?I = "initial (demo 10 None) () (\<lambda>a. 0)"
  have a: "run_epochs ?D 0 ?I = Inr ?I" by simp
  obtain s' where b: "run_epochs ?D (Suc 0) ?I = Inr s'" using demo_run_total by blast
  from best_state_replaced_iff_recall_improves[OF a b] a b show ?thesis by blast
qed

text \<open>
  C2. The best state should hold the parameters as they were at the end of the epoch with
  the highest recall so far; the cell does not keep them. On the small instance epoch 0 has
  recall 1 and epoch 1 has recall 0, so epoch 0 is the best epoch, and the weight was 10 at
  its end. After epoch 1 the best state, still the dictionary taken in epoch 0, reads 20:
  the value the training pass of epoch 1 left.
\<close>

theorem best_state_reads_later_training:
  "\<exists>s1 s2. run_epochs (demo 10 None) 1 (initial (demo 10 None) () (\<lambda>a. 0)) = Inr s1 \<and>
     run_epochs (demo 10 None) 2 (initial (demo 10 None) () (\<lambda>a. 0)) = Inr s2 \<and>
     tb_writer s2 = [(''Train/loss'', 1, 0), (''F1'', 1, 0), (''Recall'', 1, 0),
                     (''Train/loss'', 1, 1), (''F1'', 0, 1), (''Recall'', 0, 1)] \<and>
     best_recall s2 = 1 \<and> best_state s2 = best_state s1 \<and> dict_id (best_state s2) = 1 \<and>
     read_tensors (storage s1) (model (demo 10 None)) = [10] \<and>
     read_tensors (storage s2) (entries (best_state s2)) = [20]"
proof -
  let ?D = "demo 10 None" and ?I = "initial (demo 10 None) () (\<lambda>a. 0)"
  obtain s2 where r2: "run_epochs ?D (Suc (Suc 0)) ?I = Inr s2" using demo_run_total by blast
  then obtain s1 where r1: "run_epochs ?D (Suc 0) ?I = Inr s1" and b1: "epoch_body ?D (Suc 0) s1 = Inr s2"
    by (rule run_epochs_Suc_Inr)
  from r1 have b0: "epoch_body ?D 0 ?I = Inr s1" by simp
  have i: "storage ?I 0 = 0" "best_recall ?I = 0" "tb_writer ?I = []" "next_id ?I = 1"
    by (simp_all add: initial_def)
  from demo_epoch_body[OF b0] have st1: "storage s1 0 = 10"
    and tb1: "tb_writer s1 = [(''Train/loss'', 1, 0), (''F1'', 1, 0), (''Recall'', 1, 0)]"
    by (simp_all add: i)
  from demo_epoch_recall[OF b0] have br1: "best_recall s1 = 1"
    and bs1: "best_state s1 = state_dict (model ?D) 1"
    by (simp_all add: i)
  from demo_epoch_body[OF b1] have st2: "storage s2 0 = 20"
    and tb2: "tb_writer s2 = [(''Train/loss'', 1, 0), (''F1'', 1, 0), (''Recall'', 1, 0),
                     (''Train/loss'', 1, 1), (''F1'', 0, 1), (''Recall'', 0, 1)]"
    by (simp_all add: st1 tb1)
  from demo_epoch_recall[OF b1] have br2: "best_recall s2 = 1" and bs2: "best_state s2 = best_state s1"
    by (simp_all add: st1 br1)
  have "read_tensors (storage s1) (model ?D) = [10]"
    by (simp add: read_tensors_def demo_sel st1)
  moreover have "read_tensors (storage s2) (entries (best_state s2)) = [20]"
    by (simp add: bs2 bs1 state_dict_def read_tensors_def demo_sel st2)
  moreover have "dict_id (best_state s2) = 1" by (simp add: bs2 bs1 state_dict_def)
  moreover have "run_epochs ?D 1 ?I = Inr s1" "run_epochs ?D 2 ?I = Inr s2"
    using r1 r2 by (simp_all add: numeral_2_eq_2)
  ultimately show ?thesis using tb2 br2 bs2 by blast
qed

text \<open>
  C3. After the loop the model should have the parameters of the snapshot as it was saved;
  the reload does not bring them back. On the small instance the best state is saved once,
  in epoch 0, when the weight is 10, and never again. The cell ends with
  \<^verbatim>\<open>load_state_dict\<close> as its last call, and the model has the weight 1000 of the last epoch.
\<close>
theorem reload_keeps_last_epoch_parameters:
  "\<exists>s1 sf. run_epochs (demo 10 None) 1 (initial (demo 10 None) () (\<lambda>a. 0)) = Inr s1 \<and>
     train_cell (demo 10 None) () (\<lambda>a. 0) = Inr sf \<and>
     dict_id (best_state (initial (demo 10 None) () (\<lambda>a. 0))) = 0 \<and>
     dict_id (best_state s1) = 1 \<and>
     best_state sf = best_state s1 \<and>
     scalars ''Recall'' (tb_writer sf) = 1 # replicate 99 0 \<and>
     read_tensors (storage s1) (entries (best_state s1)) = [10] \<and>
     last (calls sf) = Load_state_dict \<and>
     read_tensors (storage sf) (model (demo 10 None)) = [1000]"
proof -
  let ?D = "demo 10 None" and ?I = "initial (demo 10 None) () (\<lambda>a. 0)"
  let ?P = "\<lambda>n a. storage a 0 = 10 * int n \<and>
     (if n = 0 then best_recall a = 0 \<and> next_id a = 1 \<and> tb_writer a = []
      else best_recall a = 1 \<and> best_state a = state_dict (model ?D) 1 \<and>
           scalars ''Recall'' (tb_writer a) = 1 # replicate (n - 1) 0)"
  have base: "?P 0 ?I" by (simp add: initial_def)
  have step: "?P (Suc n) b" if p: "?P n a" and body: "epoch_body ?D n a = Inr b" for n a b
  proof (cases "n = 0")
    case True
    with p have a: "storage a 0 = 0" "best_recall a = 0" "next_id a = 1" "tb_writer a = []"
      by simp_all
    from demo_epoch_body[OF body] have "storage b 0 = 10"
      and "tb_writer b = [(''Train/loss'', 1, n), (''F1'', 1, n), (''Recall'', 1, n)]"
      by (simp_all add: a)
    moreover from demo_epoch_recall[OF body] have "best_recall b = 1"
      and "best_state b = state_dict (model ?D) 1"
      by (simp_all add: a)
    ultimately show ?thesis using True by (simp add: scalars_epoch)
  next
    case False
    with p have a: "storage a 0 = 10 * int n" "best_recall a = 1"
      "best_state a = state_dict (model ?D) 1"
      "scalars ''Recall'' (tb_writer a) = 1 # replicate (n - 1) 0"
      by simp_all
    have ne: "storage a 0 + 10 \<noteq> 10" using a(1) False by simp
    from demo_epoch_body[OF body] ne have "storage b 0 = storage a 0 + 10"
      and "tb_writer b = tb_writer a @ [(''Train/loss'', 1, n), (''F1'', 0, n), (''Recall'', 0, n)]"
      by simp_all
    moreover from demo_epoch_recall[OF body] ne a have "best_recall b = 1"
      and "best_state b = state_dict (model ?D) 1" by simp_all
    moreover have "replicate (n - 1) (0 :: real) @ [0] = replicate n 0"
      using False by (cases n) (simp_all add: replicate_append_same)
    ultimately show ?thesis using a by (simp add: scalars_append scalars_epoch)
  qed
  obtain s where r: "run_epochs ?D N_EPOCHS ?I = Inr s" using demo_run_total by blast
  obtain s1 where r1: "run_epochs ?D (Suc 0) ?I = Inr s1" using demo_run_total by blast
  have inv: "?P N_EPOCHS s"
    by (rule run_epochs_invariant[OF r, where P = ?P, OF base step])
  have inv1: "?P (Suc 0) s1"
    by (rule run_epochs_invariant[OF r1, where P = ?P, OF base step])
  obtain sf where t: "train_cell ?D () (\<lambda>a. 0) = Inr sf"
    and f: "storage sf = storage s" "best_state sf = best_state s"
      "tb_writer sf = tb_writer s" "calls sf = calls s @ [Load_state_dict]"
    using train_cell_fields[OF demo_distinct r] by blast
  have 1: "run_epochs ?D 1 ?I = Inr s1" using r1 by simp
  have 2: "dict_id (best_state ?I) = 0" by (simp add: initial_def state_dict_def)
  have 3: "dict_id (best_state s1) = 1" using inv1 by (simp add: state_dict_def)
  have 4: "best_state sf = best_state s1" using inv inv1 by (simp add: f N_EPOCHS_def)
  have 5: "scalars ''Recall'' (tb_writer sf) = 1 # replicate 99 0"
    using inv by (simp add: f N_EPOCHS_def)
  have 6: "read_tensors (storage s1) (entries (best_state s1)) = [10]"
    using inv1 by (simp add: state_dict_def read_tensors_def demo_sel)
  have 7: "last (calls sf) = Load_state_dict" by (simp add: f)
  have 8: "read_tensors (storage sf) (model ?D) = [1000]"
    using inv by (simp add: f read_tensors_def demo_sel N_EPOCHS_def)
  from 1 t 2 3 4 5 6 7 8 show ?thesis by (intro exI[of _ s1] exI[of _ sf] conjI)
qed

text \<open>
  C4. The best state is the dictionary of \<^verbatim>\<open>model.state_dict()\<close>, whose entries are the
  module's own tensors. At every point of the loop its entries are the live tensors, so it
  reads the current parameters, also after any later in-place write; and reloading it after
  the loop raises nothing and leaves every tensor at its last-epoch value.
\<close>

theorem best_state_aliases_live_tensors:
  assumes "distinct (map fst (model env))"
    and "run_epochs env k (initial env w st) = Inr s"
  shows "entries (best_state s) = model env \<and>
     read_tensors (storage s) (entries (best_state s)) = read_tensors (storage s) (model env) \<and>
     (\<forall>vs. read_tensors (write_tensors (model env) vs (storage s)) (entries (best_state s)) =
            read_tensors (write_tensors (model env) vs (storage s)) (model env)) \<and>
     (\<exists>s'. retrieve_best env s = Inr s' \<and> storage s' = storage s \<and>
           (k = N_EPOCHS \<longrightarrow> train_cell env w st = Inr s'))"
proof -
  have e: "entries (best_state s) = model env"
    by (rule run_epochs_entries[OF assms(2) initial_entries])
  note r = retrieve_best_aliased[OF assms(1) e]
  have "k = N_EPOCHS \<longrightarrow> train_cell env w st = retrieve_best env s"
    using assms(2) by (auto simp: train_cell_loop)
  with r e show ?thesis by simp
qed

theorem best_state_aliases_live_tensors_witness:
  "\<exists>s. distinct (map fst (model (demo 10 None))) \<and>
     run_epochs (demo 10 None) N_EPOCHS (initial (demo 10 None) () (\<lambda>a. 0)) = Inr s \<and>
     entries (best_state s) = model (demo 10 None) \<and>
     read_tensors (storage s) (entries (best_state s)) = read_tensors (storage s) (model (demo 10 None)) \<and>
     (\<forall>vs. read_tensors (write_tensors (model (demo 10 None)) vs (storage s)) (entries (best_state s)) =
            read_tensors (write_tensors (model (demo 10 None)) vs (storage s)) (model (demo 10 None))) \<and>
     (\<exists>s'. retrieve_best (demo 10 None) s = Inr s' \<and> storage s' = storage s \<and>
           train_cell (demo 10 None) () (\<lambda>a. 0) = Inr s')"
proof -
  obtain s where r: "run_epochs (demo 10 None) N_EPOCHS (initial (demo 10 None) () (\<lambda>a. 0)) = Inr s"
    using demo_run_total by blast
  have d: "distinct (map fst (model (demo 10 None)))" by (simp add: demo_sel)
  from best_state_aliases_live_tensors[OF d r] d r show ?thesis by blast
qed

text \<open>
  C5. After \<open>k\<close> epochs the scheduler has been stepped \<open>k\<close> times, once in each epoch and as
  the last call of the epoch, after the validation pass. The step that brings the
  scheduler's count to 70 or to 85 multiplies the learning rate by gamma = 0.1, every other
  step leaves it: the rate is 0.001 up to count 69, a tenth of it from 70, a hundredth from 85.
\<close>

theorem learning_rate_schedule:
  assumes "run_epochs env k (initial env w st) = Inr s"
    and "run_epochs env (Suc k) (initial env w st) = Inr s'"
  shows "scheduler_milestones = [70, 85] \<and> scheduler_gamma = 1 / 10 \<and> LEARNING_RATE = 1 / 1000 \<and>
     last_epoch s = k \<and> last_epoch s' = Suc k \<and>
     count_list (calls s) Scheduler_step = k \<and>
     calls s' = calls s @ replicate N_TASKS_PER_EPOCH Fit_episode @
                replicate N_VALIDATION_TASKS Predict_episode @ [Scheduler_step] \<and>
     lr s' = (if Suc k = 70 \<or> Suc k = 85 then lr s * scheduler_gamma else lr s) \<and>
     lr s = (if k < 70 then LEARNING_RATE
             else if k < 85 then LEARNING_RATE * scheduler_gamma
             else LEARNING_RATE * scheduler_gamma * scheduler_gamma)"
proof -
  from assms have body: "epoch_body env k s = Inr s'" by simp
  have le: "last_epoch s = k"
    using run_epochs_last_epoch[OF assms(1)] by (simp add: initial_def)
  have c: "calls s = concat (replicate k epoch_calls)"
    using run_epochs_calls[OF assms(1)] by (simp add: initial_def)
  have l: "lr s = LEARNING_RATE * (if k < 70 then 1 else if k < 85 then scheduler_gamma else scheduler_gamma ^ 2)"
    using run_epochs_lr[OF assms(1)] by (simp add: initial_def)
  from epoch_body_Inr[OF body] have
    "last_epoch s' = Suc (last_epoch s)"
    "lr s' = (if Suc (last_epoch s) = 70 \<or> Suc (last_epoch s) = 85 then lr s * scheduler_gamma else lr s)"
    "calls s' = calls s @ replicate N_TASKS_PER_EPOCH Fit_episode @
                replicate N_VALIDATION_TASKS Predict_episode @ [Scheduler_step]"
    unfolding scheduler_lr by auto
  moreover have "scheduler_milestones = [70, 85] \<and> scheduler_gamma = 1 / 10 \<and> LEARNING_RATE = 1 / 1000"
    by (simp add: scheduler_milestones_def scheduler_gamma_def LEARNING_RATE_def)
  moreover have "count_list (calls s) Scheduler_step = k"
    by (simp add: c count_step_in_loop)
  moreover have "lr s = (if k < 70 then LEARNING_RATE
             else if k < 85 then LEARNING_RATE * scheduler_gamma
             else LEARNING_RATE * scheduler_gamma * scheduler_gamma)"
    using l by (simp add: power2_eq_square mult.assoc)
  ultimately show ?thesis using le by simp
qed

theorem learning_rate_schedule_witness:
  "\<exists>s s'. run_epochs (demo 10 None) 69 (initial (demo 10 None) () (\<lambda>a. 0)) = Inr s \<and>
     run_epochs (demo 10 None) (Suc 69) (initial (demo 10 None) () (\<lambda>a. 0)) = Inr s' \<and>
     last_epoch s = 69 \<and> last_epoch s' = 70 \<and>
     count_list (calls s) Scheduler_step = 69 \<and>
     lr s = 1 / 1000 \<and> lr s' = 1 / 10000"
proof -
  let ?D = "demo 10 None" and ?I = "initial (demo 10 None) () (\<lambda>a. 0)"
  obtain s' where b: "run_epochs ?D (Suc 69) ?I = Inr s'" using demo_run_total by blast
  then obtain s where a: "run_epochs ?D 69 ?I = Inr s" by (rule run_epochs_Suc_Inr)
  from learning_rate_schedule[OF a b] have
    "last_epoch s = 69" "last_epoch s' = 70" "count_list (calls s) Scheduler_step = 69"
    "lr s = LEARNING_RATE" "lr s' = lr s * scheduler_gamma"
    by simp_all
  moreover from this have "lr s = 1 / 1000" "lr s' = 1 / 10000"
    by (simp_all add: LEARNING_RATE_def scheduler_gamma_def)
  ultimately show ?thesis using a b by blast
qed

text \<open>
  C7. A training cell that ends has run 100 epochs: the console shows the epoch numbers 0 to
  99 in order, and the writer holds one loss, one F1 and one recall for each. The calls are,
  100 times, 10 training steps (one for each episode of the training loader), then 100
  predictions (one for each validation episode), then the scheduler; the reload is last. In
  each epoch the logged loss is the mean of the 10 losses of its training pass, and the
  logged recall and F1 are the metrics of the predictions of its validation pass.
\<close>

theorem epochs_and_passes:
  assumes "train_cell env w st = Inr s'"
  shows "N_EPOCHS = 100 \<and> N_TASKS_PER_EPOCH = 10 \<and> N_VALIDATION_TASKS = 100 \<and>
     calls s' = concat (replicate N_EPOCHS
        (replicate N_TASKS_PER_EPOCH Fit_episode @
         replicate N_VALIDATION_TASKS Predict_episode @ [Scheduler_step])) @ [Load_state_dict] \<and>
     epoch_lines (stdout s') = [0..<N_EPOCHS] \<and>
     map (\<lambda>x. (fst x, snd (snd x))) (tb_writer s') = concat (map epoch_tags [0..<N_EPOCHS]) \<and>
     (\<forall>e<N_EPOCHS. \<exists>a b s1 losses s2 res.
        run_epochs env e (initial env w st) = Inr a \<and>
        run_epochs env (Suc e) (initial env w st) = Inr b \<and>
        train_tasks env N_TASKS_PER_EPOCH (a\<lparr>stdout := stdout a @ [Epoch_line e]\<rparr>) = Inr (s1, losses) \<and>
        length losses = N_TASKS_PER_EPOCH \<and>
        calls s1 = calls a @ replicate N_TASKS_PER_EPOCH Fit_episode \<and>
        evaluate_model env s1 = Inr (s2, res) \<and>
        calls s2 = calls s1 @ replicate N_VALIDATION_TASKS Predict_episode \<and>
        recall res = recall_metric env (actuals res) (predictions res) \<and>
        f1_score res = f1_metric env (actuals res) (predictions res) \<and>
        tb_writer b = tb_writer a @
          [(''Train/loss'', sum_list losses / real N_TASKS_PER_EPOCH, e),
           (''F1'', f1_score res, e), (''Recall'', recall res, e)])"
proof -
  let ?I = "initial env w st"
  from assms obtain s where r: "run_epochs env N_EPOCHS ?I = Inr s"
    and b: "retrieve_best env s = Inr s'" by (rule train_cell_Inr)
  note f = retrieve_best_Inr[OF b]
  have 1: "N_EPOCHS = 100 \<and> N_TASKS_PER_EPOCH = 10 \<and> N_VALIDATION_TASKS = 100"
    by (simp add: N_EPOCHS_def N_TASKS_PER_EPOCH_def N_VALIDATION_TASKS_def)
  have 2: "calls s' = concat (replicate N_EPOCHS
        (replicate N_TASKS_PER_EPOCH Fit_episode @
         replicate N_VALIDATION_TASKS Predict_episode @ [Scheduler_step])) @ [Load_state_dict]"
    using run_epochs_calls[OF r] f by (simp add: initial_def epoch_calls_def)
  have 3: "epoch_lines (stdout s') = [0..<N_EPOCHS]"
    using run_epochs_epoch_lines[OF r] f by (simp add: initial_def epoch_lines_append)
  have 4: "map (\<lambda>x. (fst x, snd (snd x))) (tb_writer s') = concat (map epoch_tags [0..<N_EPOCHS])"
    using run_epochs_tags[OF r] f by (simp add: initial_def)
  have 5: "\<forall>e<N_EPOCHS. \<exists>a b s1 losses s2 res.
        run_epochs env e ?I = Inr a \<and>
        run_epochs env (Suc e) ?I = Inr b \<and>
        train_tasks env N_TASKS_PER_EPOCH (a\<lparr>stdout := stdout a @ [Epoch_line e]\<rparr>) = Inr (s1, losses) \<and>
        length losses = N_TASKS_PER_EPOCH \<and>
        calls s1 = calls a @ replicate N_TASKS_PER_EPOCH Fit_episode \<and>
        evaluate_model env s1 = Inr (s2, res) \<and>
        calls s2 = calls s1 @ replicate N_VALIDATION_TASKS Predict_episode \<and>
        recall res = recall_metric env (actuals res) (predictions res) \<and>
        f1_score res = f1_metric env (actuals res) (predictions res) \<and>
        tb_writer b = tb_writer a @
          [(''Train/loss'', sum_list losses / real N_TASKS_PER_EPOCH, e),
           (''F1'', f1_score res, e), (''Recall'', recall res, e)]"
  proof (intro allI impI)
    fix e assume "e < N_EPOCHS"
    then have "Suc e \<le> N_EPOCHS" by simp
    from run_epochs_prefix[OF r this] obtain b where rb: "run_epochs env (Suc e) ?I = Inr b" by blast
    then obtain a where ra: "run_epochs env e ?I = Inr a" and body: "epoch_body env e a = Inr b"
      by (rule run_epochs_Suc_Inr)
    from epoch_detail[OF body] ra rb
    show "\<exists>a b s1 losses s2 res.
        run_epochs env e ?I = Inr a \<and>
        run_epochs env (Suc e) ?I = Inr b \<and>
        train_tasks env N_TASKS_PER_EPOCH (a\<lparr>stdout := stdout a @ [Epoch_line e]\<rparr>) = Inr (s1, losses) \<and>
        length losses = N_TASKS_PER_EPOCH \<and>
        calls s1 = calls a @ replicate N_TASKS_PER_EPOCH Fit_episode \<and>
        evaluate_model env s1 = Inr (s2, res) \<and>
        calls s2 = calls s1 @ replicate N_VALIDATION_TASKS Predict_episode \<and>
        recall res = recall_metric env (actuals res) (predictions res) \<and>
        f1_score res = f1_metric env (actuals res) (predictions res) \<and>
        tb_writer b = tb_writer a @
          [(''Train/loss'', sum_list losses / real N_TASKS_PER_EPOCH, e),
           (''F1'', f1_score res, e), (''Recall'', recall res, e)]"
      by blast
  qed
  from 1 2 3 4 5 show ?thesis by (intro conjI) simp_all
qed

theorem epochs_and_passes_witness:
  "\<exists>s'. train_cell (demo 10 None) () (\<lambda>a. 0) = Inr s' \<and>
     calls s' = concat (replicate 100
        (replicate 10 Fit_episode @ replicate 100 Predict_episode @ [Scheduler_step])) @
        [Load_state_dict] \<and>
     epoch_lines (stdout s') = [0..<100] \<and>
     map (\<lambda>x. (fst x, snd (snd x))) (tb_writer s') = concat (map epoch_tags [0..<100])"
proof -
  obtain s' where r: "train_cell (demo 10 None) () (\<lambda>a. 0) = Inr s'"
    using demo_train_cell_total by blast
  from epochs_and_passes[OF r] have
    c: "N_EPOCHS = 100 \<and> N_TASKS_PER_EPOCH = 10 \<and> N_VALIDATION_TASKS = 100" and
    "calls s' = concat (replicate N_EPOCHS
        (replicate N_TASKS_PER_EPOCH Fit_episode @
         replicate N_VALIDATION_TASKS Predict_episode @ [Scheduler_step])) @ [Load_state_dict]"
    "epoch_lines (stdout s') = [0..<N_EPOCHS]"
    "map (\<lambda>x. (fst x, snd (snd x))) (tb_writer s') = concat (map epoch_tags [0..<N_EPOCHS])"
    by blast+
  then have "calls s' = concat (replicate 100
        (replicate 10 Fit_episode @ replicate 100 Predict_episode @ [Scheduler_step])) @
        [Load_state_dict]"
    "epoch_lines (stdout s') = [0..<100]"
    "map (\<lambda>x. (fst x, snd (snd x))) (tb_writer s') = concat (map epoch_tags [0..<100])"
    by (simp_all only: c)
  with r show ?thesis by blast
qed

text \<open>
  C8. Nothing in the notebook handles an exception. Whatever call raises first, in a set-up
  cell, in \<^verbatim>\<open>model.state_dict()\<close> before or inside the loop, in the training or the validation
  pass, in one of the three \<^verbatim>\<open>add_scalar\<close> calls, in the scheduler or in the final reload,
  that exception is how the notebook ends, with the state as it was at the raise: no later
  statement runs, the call is not made again, and nothing is restored. A statement raises
  exactly when its call does, with the exception of the call.
\<close>
theorem exceptions_end_the_run:
  "(\<forall>i w1 x. i < length setup_calls \<and> run_setup fw (take i setup_calls) w0 = Inr w1 \<and>
        setup_call fw (setup_calls ! i) w1 = Inl x \<longrightarrow>
        notebook_run env fw w0 st = Raised_early (fst x) (snd x)) \<and>
   (\<forall>w e. run_setup fw setup_calls w0 = Inr w \<and> call_raises fw w (State_dict_site 0) = Some e \<longrightarrow>
        notebook_run env fw w0 st = Raised_early e w) \<and>
   (\<forall>w k s x. run_setup fw setup_calls w0 = Inr w \<and> call_raises fw w (State_dict_site 0) = None \<and>
        k < N_EPOCHS \<and> run_epochs_fw env fw k (initial env w st) = Inr s \<and>
        epoch_body_fw env fw k s = Inl x \<longrightarrow>
        notebook_run env fw w0 st = Raised (fst x) (snd x)) \<and>
   (\<forall>w s x. run_setup fw setup_calls w0 = Inr w \<and> call_raises fw w (State_dict_site 0) = None \<and>
        run_epochs_fw env fw N_EPOCHS (initial env w st) = Inr s \<and>
        retrieve_best_fw env fw s = Inl x \<longrightarrow>
        notebook_run env fw w0 st = Raised (fst x) (snd x)) \<and>
   (\<forall>k s x. epoch_body_fw env fw k s = Inl x \<longleftrightarrow>
     (\<exists>s1 loss s2 res s4 s5 s6 s7.
        training_epoch env (s\<lparr>stdout := stdout s @ [Epoch_line k]\<rparr>) = Inl x \<or>
        training_epoch env (s\<lparr>stdout := stdout s @ [Epoch_line k]\<rparr>) = Inr (s1, loss) \<and>
       (evaluate_model env s1 = Inl x \<or>
        evaluate_model env s1 = Inr (s2, res) \<and>
       (track_recall_fw env fw (recall res) (track_f1 (f1_score res) s2) = Inl x \<or>
        track_recall_fw env fw (recall res) (track_f1 (f1_score res) s2) = Inr s4 \<and>
       (add_scalar_fw fw ''Train/loss'' loss k s4 = Inl x \<or>
        add_scalar_fw fw ''Train/loss'' loss k s4 = Inr s5 \<and>
       (add_scalar_fw fw ''F1'' (f1_score res) k s5 = Inl x \<or>
        add_scalar_fw fw ''F1'' (f1_score res) k s5 = Inr s6 \<and>
       (add_scalar_fw fw ''Recall'' (recall res) k s6 = Inl x \<or>
        add_scalar_fw fw ''Recall'' (recall res) k s6 = Inr s7 \<and>
        scheduler_step_fw fw s7 = Inl x))))))) \<and>
   (\<forall>r s x. track_recall_fw env fw r s = Inl x \<longleftrightarrow>
        r > best_recall s \<and>
        (\<exists>e. call_raises fw (hidden s) (State_dict_site (next_id s)) = Some e \<and>
             x = (e, s\<lparr>best_recall := r\<rparr>))) \<and>
   (\<forall>tag v n s x. add_scalar_fw fw tag v n s = Inl x \<longleftrightarrow>
        (\<exists>e. call_raises fw (hidden s) (Add_scalar_site tag n) = Some e \<and> x = (e, s))) \<and>
   (\<forall>s x. scheduler_step_fw fw s = Inl x \<longleftrightarrow>
        (\<exists>e. call_raises fw (hidden s) (Scheduler_site (last_epoch s)) = Some e \<and>
             x = (e, s\<lparr>calls := calls s @ [Scheduler_step]\<rparr>))) \<and>
   (\<forall>s x. retrieve_best_fw env fw s = Inl x \<longleftrightarrow>
        (\<exists>e. call_raises fw (hidden s) Load_site = Some e \<and>
             x = (e, s\<lparr>calls := calls s @ [Load_state_dict]\<rparr>)) \<or>
        (call_raises fw (hidden s) Load_site = None \<and> retrieve_best env s = Inl x))"
proof (intro conjI allI impI)
  fix i w1 x
  assume "i < length setup_calls \<and> run_setup fw (take i setup_calls) w0 = Inr w1 \<and>
        setup_call fw (setup_calls ! i) w1 = Inl x"
  then have "run_setup fw setup_calls w0 = Inl x" by (blast intro: run_setup_raises)
  then show "notebook_run env fw w0 st = Raised_early (fst x) (snd x)"
    by (simp add: notebook_run_def split: prod.splits)
next
  fix w e
  assume "run_setup fw setup_calls w0 = Inr w \<and> call_raises fw w (State_dict_site 0) = Some e"
  then show "notebook_run env fw w0 st = Raised_early e w"
    by (simp add: notebook_run_def)
next
  fix w k s x
  assume a: "run_setup fw setup_calls w0 = Inr w \<and> call_raises fw w (State_dict_site 0) = None \<and>
        k < N_EPOCHS \<and> run_epochs_fw env fw k (initial env w st) = Inr s \<and>
        epoch_body_fw env fw k s = Inl x"
  then have "run_epochs_fw env fw (Suc k) (initial env w st) = Inl x" by simp
  from run_epochs_fw_Inl_mono[OF this, of N_EPOCHS] a
  have "run_epochs_fw env fw N_EPOCHS (initial env w st) = Inl x" by simp
  with a show "notebook_run env fw w0 st = Raised (fst x) (snd x)"
    by (simp add: notebook_run_def split: prod.splits)
next
  fix w s x
  assume "run_setup fw setup_calls w0 = Inr w \<and> call_raises fw w (State_dict_site 0) = None \<and>
        run_epochs_fw env fw N_EPOCHS (initial env w st) = Inr s \<and>
        retrieve_best_fw env fw s = Inl x"
  then show "notebook_run env fw w0 st = Raised (fst x) (snd x)"
    by (simp add: notebook_run_def split: prod.splits)
qed (simp_all only: epoch_body_fw_Inl track_recall_fw_Inl add_scalar_fw_Inl
      scheduler_step_fw_Inl retrieve_best_fw_Inl)

theorem exceptions_end_the_run_witness:
  "notebook_run (demo 10 None) (demo_framework (Some ''get_processed_data'') None) () (\<lambda>a. 0) =
     Raised_early (FrameworkError ''FileNotFoundError'') () \<and>
   (\<exists>sf. notebook_run demo_unsampled (demo_framework None None) () (\<lambda>a. 0) =
        Raised (FrameworkError ''ValueError: Sample larger than population or is negative'') sf \<and>
      storage sf 0 = 10 \<and> calls sf = replicate 10 Fit_episode @ [Predict_episode] \<and>
      tb_writer sf = [] \<and> dict_id (best_state sf) = 0) \<and>
   (\<exists>sf. notebook_run (demo 10 None) (demo_framework None (Some (Add_scalar_site ''F1'' 1))) ()
          (\<lambda>a. 0) =
        Raised (FrameworkError ''OSError: No space left on device'') sf \<and>
      last_epoch sf = 1 \<and> length (tb_writer sf) = 4 \<and> storage sf 0 = 20 \<and>
      Load_state_dict \<notin> set (calls sf))"
proof (intro conjI)
  let ?fw = "demo_framework (Some ''get_processed_data'') None"
  let ?x = "(FrameworkError ''FileNotFoundError'', ())"
  have "(2 :: nat) < length setup_calls \<and> run_setup ?fw (take 2 setup_calls) () = Inr () \<and>
        setup_call ?fw (setup_calls ! 2) () = Inl ?x"
    by (simp add: setup_calls_def demo_framework_sel)
  from exceptions_end_the_run[of ?fw "()" "demo 10 None" "\<lambda>a. 0", THEN conjunct1,
      rule_format, OF this]
  have "notebook_run (demo 10 None) ?fw () (\<lambda>a. 0) = Raised_early (fst ?x) (snd ?x)" .
  then show "notebook_run (demo 10 None) ?fw () (\<lambda>a. 0) =
     Raised_early (FrameworkError ''FileNotFoundError'') ()" by simp
next
  let ?E = demo_unsampled and ?fw = "demo_framework None None"
  let ?I = "initial demo_unsampled () (\<lambda>a. 0 :: int)"
  let ?e = "FrameworkError ''ValueError: Sample larger than population or is negative''"
  from demo_unsampled_epoch[of "?I\<lparr>stdout := stdout ?I @ [Epoch_line 0]\<rparr>"]
  obtain s1 l where t: "training_epoch ?E (?I\<lparr>stdout := stdout ?I @ [Epoch_line 0]\<rparr>) = Inr (s1, l)"
    and f: "storage s1 0 = 10" "calls s1 = replicate 10 Fit_episode"
      "best_state s1 = best_state ?I" "tb_writer s1 = []"
    and v: "evaluate_model ?E s1 = Inl (?e, s1\<lparr>hidden := (), calls := calls s1 @ [Predict_episode]\<rparr>)"
    by (auto simp: initial_def)
  let ?sf = "s1\<lparr>hidden := (), calls := calls s1 @ [Predict_episode]\<rparr>"
  have body: "epoch_body_fw ?E ?fw 0 ?I = Inl (?e, ?sf)"
    by (rule epoch_body_fw_evaluate_raises[OF t v])
  have "run_setup ?fw setup_calls () = Inr () \<and> call_raises ?fw () (State_dict_site 0) = None \<and>
        0 < N_EPOCHS \<and> run_epochs_fw ?E ?fw 0 ?I = Inr ?I \<and>
        epoch_body_fw ?E ?fw 0 ?I = Inl (?e, ?sf)"
    using body by (simp add: run_setup_quiet demo_framework_sel N_EPOCHS_def)
  from exceptions_end_the_run[of ?fw "()" ?E "\<lambda>a. 0", THEN conjunct2, THEN conjunct2,
      THEN conjunct1, rule_format, OF this]
  have "notebook_run ?E ?fw () (\<lambda>a. 0) = Raised (fst (?e, ?sf)) (snd (?e, ?sf))" .
  then have "notebook_run ?E ?fw () (\<lambda>a. 0) = Raised ?e ?sf" by simp
  moreover have "storage ?sf 0 = 10" "calls ?sf = replicate 10 Fit_episode @ [Predict_episode]"
    "tb_writer ?sf = []" "dict_id (best_state ?sf) = 0"
    using f by (simp_all add: initial_def state_dict_def)
  ultimately show "\<exists>sf. notebook_run ?E ?fw () (\<lambda>a. 0) = Raised ?e sf \<and>
      storage sf 0 = 10 \<and> calls sf = replicate 10 Fit_episode @ [Predict_episode] \<and>
      tb_writer sf = [] \<and> dict_id (best_state sf) = 0"
    by blast
next
  let ?D = "demo 10 None" and ?fw = "demo_framework None (Some (Add_scalar_site ''F1'' 1))"
  let ?I = "initial (demo 10 None) () (\<lambda>a. 0 :: int)"
  let ?e = "FrameworkError ''OSError: No space left on device''"
  obtain s2 where r2: "run_epochs ?D (Suc (Suc 0)) ?I = Inr s2" using demo_run_total by blast
  then obtain s1 where r1: "run_epochs ?D (Suc 0) ?I = Inr s1"
    and b1: "epoch_body ?D (Suc 0) s1 = Inr s2" by (rule run_epochs_Suc_Inr)
  from r1 have b0: "epoch_body ?D 0 ?I = Inr s1" by simp
  have "epoch_body_fw ?D ?fw 0 ?I = epoch_body ?D 0 ?I"
    by (rule epoch_body_fw_quiet) (simp_all add: demo_framework_sel)
  with b0 have q1: "run_epochs_fw ?D ?fw (Suc 0) ?I = Inr s1" by simp
  from demo_epoch_body[OF b0] have st1: "storage s1 0 = 10" by (simp add: initial_def)
  from demo_epoch_body[OF b1] have st2: "storage s2 0 = 20" by (simp add: st1)
  from epoch_body_Inr[OF b0] have f1: "last_epoch s1 = 1" "length (tb_writer s1) = 3"
    "calls s1 = replicate N_TASKS_PER_EPOCH Fit_episode @
                replicate N_VALIDATION_TASKS Predict_episode @ [Scheduler_step]"
    by (auto simp: initial_def)
  from epoch_body_fw_add_scalar_raises[OF b1, of ?fw ?e] obtain sf where
    body: "epoch_body_fw ?D ?fw (Suc 0) s1 = Inl (?e, sf)" and
    f: "last_epoch sf = last_epoch s1" "length (tb_writer sf) = Suc (length (tb_writer s1))"
      "calls sf = calls s1 @ replicate N_TASKS_PER_EPOCH Fit_episode @
                  replicate N_VALIDATION_TASKS Predict_episode"
      "storage sf = storage s2"
    by (auto simp: demo_framework_sel)
  have "run_setup ?fw setup_calls () = Inr () \<and> call_raises ?fw () (State_dict_site 0) = None \<and>
        Suc 0 < N_EPOCHS \<and> run_epochs_fw ?D ?fw (Suc 0) ?I = Inr s1 \<and>
        epoch_body_fw ?D ?fw (Suc 0) s1 = Inl (?e, sf)"
    using body q1 by (simp add: run_setup_quiet demo_framework_sel N_EPOCHS_def)
  from exceptions_end_the_run[of ?fw "()" ?D "\<lambda>a. 0", THEN conjunct2, THEN conjunct2,
      THEN conjunct1, rule_format, OF this]
  have "notebook_run ?D ?fw () (\<lambda>a. 0) = Raised (fst (?e, sf)) (snd (?e, sf))" .
  then have "notebook_run ?D ?fw () (\<lambda>a. 0) = Raised ?e sf" by simp
  moreover have "last_epoch sf = 1" "length (tb_writer sf) = 4" "storage sf 0 = 20"
    "Load_state_dict \<notin> set (calls sf)"
    using f f1 st2 by simp_all
  ultimately show "\<exists>sf. notebook_run ?D ?fw () (\<lambda>a. 0) = Raised ?e sf \<and>
      last_epoch sf = 1 \<and> length (tb_writer sf) = 4 \<and> storage sf 0 = 20 \<and>
      Load_state_dict \<notin> set (calls sf)"
    by blast
qed

text \<open>
  C9. The two best metrics never go down from one point of the loop to a later one. After
  \<open>k\<close> epochs the writer holds \<open>k\<close> recalls and \<open>k\<close> F1 scores, and each best metric is the
  largest of 0 and the logged values. A cell that ends has logged 100 of each; its best
  metrics are those maxima, and they are the two values of the last two lines printed.
\<close>

theorem best_metrics_are_running_maxima:
  assumes "run_epochs env k (initial env w st) = Inr s"
    and "run_epochs env (k + j) (initial env w st) = Inr s'"
    and "train_cell env w st = Inr sf"
  shows "best_recall s \<le> best_recall s' \<and> best_f1_score s \<le> best_f1_score s' \<and>
     length (scalars ''Recall'' (tb_writer s)) = k \<and>
     length (scalars ''F1'' (tb_writer s)) = k \<and>
     best_recall s = Max (set (0 # scalars ''Recall'' (tb_writer s))) \<and>
     best_f1_score s = Max (set (0 # scalars ''F1'' (tb_writer s))) \<and>
     length (scalars ''Recall'' (tb_writer sf)) = 100 \<and>
     length (scalars ''F1'' (tb_writer sf)) = 100 \<and>
     best_recall sf = Max (set (0 # scalars ''Recall'' (tb_writer sf))) \<and>
     best_f1_score sf = Max (set (0 # scalars ''F1'' (tb_writer sf))) \<and>
     (\<exists>out. stdout sf = out @ [Best_f1_line 100 (best_f1_score sf),
                                Best_recall_line 100 (best_recall sf)])"
proof -
  from assms(3) obtain sn where r: "run_epochs env N_EPOCHS (initial env w st) = Inr sn"
    and b: "retrieve_best env sn = Inr sf" by (rule train_cell_Inr)
  note f = retrieve_best_Inr[OF b]
  have n: "N_EPOCHS = 100" by (simp add: N_EPOCHS_def)
  have "stdout sf = stdout sn @ [Best_f1_line 100 (best_f1_score sf),
                                Best_recall_line 100 (best_recall sf)]"
    using f by (simp add: n)
  then have "\<exists>out. stdout sf = out @ [Best_f1_line 100 (best_f1_score sf),
                                Best_recall_line 100 (best_recall sf)]" ..
  moreover have "length (scalars ''Recall'' (tb_writer sf)) = 100 \<and>
     length (scalars ''F1'' (tb_writer sf)) = 100 \<and>
     best_recall sf = Max (set (0 # scalars ''Recall'' (tb_writer sf))) \<and>
     best_f1_score sf = Max (set (0 # scalars ''F1'' (tb_writer sf)))"
    using run_epochs_best[OF r] f by (simp add: n)
  ultimately show ?thesis
    using run_epochs_mono_add[OF assms(1,2)] run_epochs_best[OF assms(1)] by simp
qed

theorem best_metrics_are_running_maxima_witness:
  "\<exists>s s' sf. run_epochs (demo 10 None) 1 (initial (demo 10 None) () (\<lambda>a. 0)) = Inr s \<and>
     run_epochs (demo 10 None) (1 + 1) (initial (demo 10 None) () (\<lambda>a. 0)) = Inr s' \<and>
     train_cell (demo 10 None) () (\<lambda>a. 0) = Inr sf \<and>
     best_recall s \<le> best_recall s' \<and> best_f1_score s \<le> best_f1_score s' \<and>
     length (scalars ''Recall'' (tb_writer s)) = 1 \<and>
     best_recall s = Max (set (0 # scalars ''Recall'' (tb_writer s))) \<and>
     best_recall sf = Max (set (0 # scalars ''Recall'' (tb_writer sf))) \<and>
     best_f1_score sf = Max (set (0 # scalars ''F1'' (tb_writer sf))) \<and>
     (\<exists>out. stdout sf = out @ [Best_f1_line 100 (best_f1_score sf),
                                Best_recall_line 100 (best_recall sf)])"
proof -
  let ?D = "demo 10 None" and ?I = "initial (demo 10 None) () (\<lambda>a. 0)"
  obtain s where a: "run_epochs ?D 1 ?I = Inr s" using demo_run_total by blast
  obtain s' where b: "run_epochs ?D (1 + 1) ?I = Inr s'" using demo_run_total by blast
  obtain sf where c: "train_cell ?D () (\<lambda>a. 0) = Inr sf" using demo_train_cell_total by blast
  from best_metrics_are_running_maxima[OF a b c] a b c show ?thesis by blast
qed

text \<open>
  C10. When no epoch has a recall above 0.0, the best state is never reassigned and the
  reload should bring back the parameters from before epoch 0; the cell does not. On the
  small instance with no correct prediction the recall of every epoch is 0 and the best
  state stays the dictionary taken before the loop. The weight was 0 before the first epoch;
  the reloaded model has the weight 1000 that the last training pass left.
\<close>

theorem initial_best_state_is_not_restored:
  "\<exists>s. train_cell (demo 0 None) () (\<lambda>a. 0) = Inr s \<and>
     scalars ''Recall'' (tb_writer s) = replicate N_EPOCHS 0 \<and>
     best_recall s = 0 \<and>
     best_state s = best_state (initial (demo 0 None) () (\<lambda>a. 0)) \<and>
     read_tensors (\<lambda>a. 0 :: int) (model (demo 0 None)) = [0] \<and>
     read_tensors (storage s) (model (demo 0 None)) = [1000]"
proof -
  let ?D = "demo 0 None" and ?I = "initial (demo 0 None) () (\<lambda>a. 0)"
  let ?P = "\<lambda>n a. storage a 0 = 10 * int n \<and> best_recall a = 0 \<and>
     best_state a = best_state ?I \<and> scalars ''Recall'' (tb_writer a) = replicate n 0"
  obtain s where r: "run_epochs ?D N_EPOCHS ?I = Inr s" using demo_run_total by blast
  have inv: "?P N_EPOCHS s"
  proof (rule run_epochs_invariant[OF r, where P = ?P])
    show "?P 0 ?I" by (simp add: initial_def scalars_def)
  next
    fix n a b
    assume p: "?P n a" and body: "epoch_body ?D n a = Inr b"
    have ne: "storage a 0 + 10 \<noteq> 0" using p by simp
    from demo_epoch_body[OF body] ne have "storage b 0 = storage a 0 + 10"
      and "tb_writer b = tb_writer a @ [(''Train/loss'', 1, n), (''F1'', 0, n), (''Recall'', 0, n)]"
      by simp_all
    moreover from demo_epoch_recall[OF body] ne p
    have "best_recall b = 0" and "best_state b = best_state a" by simp_all
    ultimately show "?P (Suc n) b"
      using p by (simp add: scalars_append scalars_epoch replicate_append_same)
  qed
  obtain s' where t: "train_cell ?D () (\<lambda>a. 0) = Inr s'"
    and f: "storage s' = storage s" "best_state s' = best_state s"
      "best_recall s' = best_recall s" "tb_writer s' = tb_writer s"
    using train_cell_fields[OF demo_distinct r] by blast
  have 1: "read_tensors (storage s') (model ?D) = [1000]"
    using inv by (simp add: f read_tensors_def demo_sel N_EPOCHS_def)
  have 2: "read_tensors (\<lambda>a. 0::int) (model ?D) = [0]"
    by (simp add: read_tensors_def demo_sel)
  have 3: "scalars ''Recall'' (tb_writer s') = replicate N_EPOCHS 0"
    using inv by (simp add: f)
  have 4: "best_recall s' = 0" using inv by (simp add: f)
  have 5: "best_state s' = best_state ?I" using inv by (simp add: f)
  from t 3 4 5 2 1 show ?thesis by (intro exI[of _ s'] conjI)
qed

end
